theory Spec2Isabelle
  imports Main "HOL-Library.Multiset"
begin

section \<open>JavaScript values used by \<open>modules/RTC/ortc/utils.js\<close>\<close>

text \<open>
  The functions of \<open>utils.js\<close> read an SDP object as produced by \<open>sdp-transform\<close>
  and build ORTC capability and parameter objects. Strings are ASCII \<open>string\<close>s,
  integers are \<open>int\<close>, a field that may be \<open>undefined\<close> is an \<open>option\<close>.
  A JavaScript \<open>TypeError\<close> (a property read on \<open>undefined\<close>, an iteration over
  \<open>undefined\<close>) is the error value of a sum type.
\<close>

datatype js_error = TypeError

text \<open>A codec parameter value: \<open>parseFmtpConfig\<close> yields numbers and strings.\<close>

datatype jsval = JNum int | JStr string

text \<open>The result of \<open>Number(token)\<close> on an SSRC token: an integer or \<open>NaN\<close>.\<close>

datatype jsnum = Num int | NaN

definition lower_char :: "char \<Rightarrow> char" where
  "lower_char c =
     (if 65 \<le> (of_char c :: nat) \<and> (of_char c :: nat) \<le> 90
      then char_of ((of_char c :: nat) + 32) else c)"

definition toLowerCase :: "string \<Rightarrow> string" where
  "toLowerCase s = map lower_char s"

text \<open>\<open>s.split(sep)\<close> for a one-character separator: never the empty list.\<close>

fun split :: "char \<Rightarrow> string \<Rightarrow> string list" where
  "split sep [] = [[]]"
| "split sep (c # cs) =
     (if c = sep then [] # split sep cs
      else (case split sep cs of
              [] \<Rightarrow> [[c]]
            | w # ws \<Rightarrow> (c # w) # ws))"

text \<open>\<open>xs[i]\<close>: \<open>undefined\<close> out of range.\<close>

definition at_index :: "'a list \<Rightarrow> nat \<Rightarrow> 'a option" where
  "at_index xs i = (if i < length xs then Some (xs ! i) else None)"

text \<open>
  A JavaScript \<open>Map\<close> keeps its keys in insertion order; \<open>set\<close> on a key that is
  present replaces the value and leaves the key where it is.
\<close>

primrec Map_set :: "'k \<Rightarrow> 'v \<Rightarrow> ('k \<times> 'v) list \<Rightarrow> ('k \<times> 'v) list" where
  "Map_set k v [] = [(k, v)]"
| "Map_set k v (e # m) = (if fst e = k then (k, v) # m else e # Map_set k v m)"

definition Map_get :: "('k \<times> 'v) list \<Rightarrow> 'k \<Rightarrow> 'v option" where
  "Map_get m k = map_of m k"

definition Map_values :: "('k \<times> 'v) list \<Rightarrow> 'v list" where
  "Map_values m = map snd m"

section \<open>The parsed SDP object\<close>

record rtp_entry =
  rtp_payload :: int
  rtp_codec :: string
  rtp_rate :: int
  rtp_encoding :: "int option"

record fmtp_entry =
  fmtp_payload :: int
  fmtp_config :: string

record rtcpfb_entry =
  fb_payload :: int
  fb_type :: string
  fb_subtype :: "string option"

record ext_entry =
  ext_value :: int
  ext_uri :: string

record ssrc_group =
  semantics :: string
  group_ssrcs :: string

record ssrc_entry =
  ssrc_id :: int
  ssrc_attribute :: string
  ssrc_value :: string

record sdp_candidate =
  c_component :: int
  c_foundation :: string
  c_ip :: string
  c_port :: int
  c_priority :: int
  c_transport :: string
  c_type :: string

record sdp_fingerprint =
  fp_type :: string
  fp_hash :: string

record media_section =
  m_type :: string
  m_port :: int
  m_mid :: "string option"
  m_rtp :: "rtp_entry list"
  m_fmtp :: "fmtp_entry list option"
  m_rtcpFb :: "rtcpfb_entry list option"
  m_ext :: "ext_entry list option"
  m_ssrcGroups :: "ssrc_group list option"
  m_ssrcs :: "ssrc_entry list option"
  m_candidates :: "sdp_candidate list option"
  m_iceUfrag :: "string option"
  m_icePwd :: "string option"
  m_setup :: "string option"
  m_fingerprint :: "sdp_fingerprint option"

record sdp_object =
  media :: "media_section list"
  s_icelite :: "string option"
  s_fingerprint :: "sdp_fingerprint option"

text \<open>\<open>xs || []\<close> on a list field that may be missing.\<close>

definition or_empty :: "'a list option \<Rightarrow> 'a list" where
  "or_empty xs = (case xs of None \<Rightarrow> [] | Some ys \<Rightarrow> ys)"

section \<open>DTLS and ICE extraction\<close>

record dtls_fingerprint =
  algorithm :: string
  fp_value :: string

record dtls_parameters =
  role :: "string option"
  fingerprints :: "dtls_fingerprint list"

record ice_candidate =
  foundation :: string
  ip :: string
  port :: int
  priority :: int
  protocol :: string
  cand_type :: string

record ice_parameters =
  icelite :: bool
  password :: "string option"
  usernameFragment :: "string option"

text \<open>The predicate of \<open>getFirstActiveMediaSection\<close>: \<open>m.iceUfrag && m.port !== 0\<close>.\<close>

definition is_active :: "media_section \<Rightarrow> bool" where
  "is_active m = ((case m_iceUfrag m of None \<Rightarrow> False | Some u \<Rightarrow> u \<noteq> []) \<and> m_port m \<noteq> 0)"

definition getFirstActiveMediaSection :: "sdp_object \<Rightarrow> media_section option" where
  "getFirstActiveMediaSection sdpObject = find is_active (media sdpObject)"

text \<open>The \<open>switch (media.setup)\<close> of \<open>extractDtlsParameters\<close>; it has no default case.\<close>

definition setup_role :: "string option \<Rightarrow> string option" where
  "setup_role s =
     (if s = Some ''active'' then Some ''client''
      else if s = Some ''passive'' then Some ''server''
      else if s = Some ''actpass'' then Some ''auto''
      else None)"

definition extractDtlsParameters :: "sdp_object \<Rightarrow> js_error + dtls_parameters" where
  "extractDtlsParameters sdpObject =
     (case getFirstActiveMediaSection sdpObject of
        None \<Rightarrow> Inl TypeError
      | Some m \<Rightarrow>
          (case (case m_fingerprint m of Some f \<Rightarrow> Some f | None \<Rightarrow> s_fingerprint sdpObject) of
             None \<Rightarrow> Inl TypeError
           | Some fingerprint \<Rightarrow>
               Inr \<lparr>role = setup_role (m_setup m),
                    fingerprints = [\<lparr>algorithm = fp_type fingerprint,
                                     fp_value = fp_hash fingerprint\<rparr>]\<rparr>))"

definition candidate_of :: "sdp_candidate \<Rightarrow> ice_candidate" where
  "candidate_of c =
     \<lparr>foundation = c_foundation c, ip = c_ip c, port = c_port c, priority = c_priority c,
      protocol = toLowerCase (c_transport c), cand_type = c_type c\<rparr>"

fun candidates_loop :: "ice_candidate list \<Rightarrow> sdp_candidate list \<Rightarrow> ice_candidate list" where
  "candidates_loop candidates [] = candidates"
| "candidates_loop candidates (c # cs) =
     (if c_component c \<noteq> 1 then candidates_loop candidates cs
      else candidates_loop (candidates @ [candidate_of c]) cs)"

definition extractIceCandidates :: "sdp_object \<Rightarrow> js_error + ice_candidate list" where
  "extractIceCandidates sdpObject =
     (case getFirstActiveMediaSection sdpObject of
        None \<Rightarrow> Inl TypeError
      | Some m \<Rightarrow>
          (case m_candidates m of
             None \<Rightarrow> Inl TypeError
           | Some cs \<Rightarrow> Inr (candidates_loop [] cs)))"

definition extractIceParameters :: "sdp_object \<Rightarrow> js_error + ice_parameters" where
  "extractIceParameters sdpObject =
     (case getFirstActiveMediaSection sdpObject of
        None \<Rightarrow> Inl TypeError
      | Some m \<Rightarrow>
          Inr \<lparr>icelite = (s_icelite sdpObject = Some ''ice-lite''),
               password = m_icePwd m,
               usernameFragment = m_iceUfrag m\<rparr>)"

definition extractMids :: "sdp_object \<Rightarrow> (string option \<times> string) list" where
  "extractMids sdpObject = foldl (\<lambda>midToKind m. Map_set (m_mid m) (m_type m) midToKind) [] (media sdpObject)"

section \<open>RTP capabilities\<close>

record rtcp_feedback =
  parameter :: string
  fbtype :: string

record codec_capability =
  clockRate :: int
  kind :: string
  mimeType :: string
  name :: string
  numChannels :: "int option"
  parameters :: "(string \<times> jsval) list"
  preferredPayloadType :: int
  rtcpFeedback :: "rtcp_feedback list"

record header_extension =
  hkind :: string
  uri :: string
  preferredId :: int
  preferredEncrypt :: "bool option"

record rtp_capabilities =
  codecs :: "codec_capability list"
  fecMechanisms :: "string list"
  headerExtensions :: "header_extension list"

subsection \<open>\<open>extractCapabilities\<close>\<close>

text \<open>
  \<open>codecsMap\<close> is a \<open>Map\<close> from payload type to codec object and \<open>headerExtensions\<close>
  an array; both are declared before the loop over the media sections and live through
  all of it. The only reference to a codec object is the one in the map, so changing the
  object is changing the value stored under its key. \<open>sdpTransform.parseFmtpConfig\<close>
  belongs to another package and is a parameter of the model.
\<close>

definition or_one :: "int option \<Rightarrow> int" where
  "or_one n = (case n of None \<Rightarrow> 1 | Some k \<Rightarrow> if k = 0 then 1 else k)"

definition codec_of_rtp :: "string \<Rightarrow> rtp_entry \<Rightarrow> codec_capability" where
  "codec_of_rtp knd rtp =
     \<lparr>clockRate = rtp_rate rtp, kind = knd, mimeType = knd @ ''/'' @ rtp_codec rtp,
      name = rtp_codec rtp, numChannels = Some (or_one (rtp_encoding rtp)),
      parameters = [], preferredPayloadType = rtp_payload rtp, rtcpFeedback = []\<rparr>"

definition add_rtp ::
  "string \<Rightarrow> (int \<times> codec_capability) list \<Rightarrow> rtp_entry \<Rightarrow> (int \<times> codec_capability) list" where
  "add_rtp knd codecsMap rtp =
     (let codec = codec_of_rtp knd rtp in Map_set (preferredPayloadType codec) codec codecsMap)"

definition add_fmtp ::
  "(string \<Rightarrow> (string \<times> jsval) list) \<Rightarrow> (int \<times> codec_capability) list \<Rightarrow> fmtp_entry
     \<Rightarrow> (int \<times> codec_capability) list" where
  "add_fmtp parseFmtpConfig codecsMap fmtp =
     (let params = parseFmtpConfig (fmtp_config fmtp) in
      case Map_get codecsMap (fmtp_payload fmtp) of
        None \<Rightarrow> codecsMap
      | Some codec \<Rightarrow> Map_set (fmtp_payload fmtp) (codec\<lparr>parameters := params\<rparr>) codecsMap)"

text \<open>The object pushed for a feedback line: \<open>fb.subtype || ''\<close> and \<open>fb.type\<close>.\<close>

definition feedback_of :: "rtcpfb_entry \<Rightarrow> rtcp_feedback" where
  "feedback_of fb =
     \<lparr>parameter = (case fb_subtype fb of None \<Rightarrow> [] | Some s \<Rightarrow> s), fbtype = fb_type fb\<rparr>"

definition add_rtcpFb ::
  "(int \<times> codec_capability) list \<Rightarrow> rtcpfb_entry \<Rightarrow> (int \<times> codec_capability) list" where
  "add_rtcpFb codecsMap fb =
     (case Map_get codecsMap (fb_payload fb) of
        None \<Rightarrow> codecsMap
      | Some codec \<Rightarrow>
          Map_set (fb_payload fb)
            (codec\<lparr>rtcpFeedback := rtcpFeedback codec @ [feedback_of fb]\<rparr>)
            codecsMap)"

text \<open>
  The body of the loop over \<open>m.ext\<close>: the object built for an extension line, and the
  push that \<open>headerExtensions.find\<close> guards.
\<close>

definition header_of :: "string \<Rightarrow> ext_entry \<Rightarrow> header_extension" where
  "header_of knd ext =
     \<lparr>hkind = knd, uri = ext_uri ext, preferredId = ext_value ext, preferredEncrypt = None\<rparr>"

definition push_unique :: "header_extension list \<Rightarrow> header_extension \<Rightarrow> header_extension list" where
  "push_unique hdrs headerExtension =
     (case find (\<lambda>saved. hkind headerExtension = hkind saved \<and> uri headerExtension = uri saved) hdrs of
        None \<Rightarrow> hdrs @ [headerExtension]
      | Some duplicated \<Rightarrow> hdrs)"

definition add_ext :: "string \<Rightarrow> header_extension list \<Rightarrow> ext_entry \<Rightarrow> header_extension list" where
  "add_ext knd hdrs ext = push_unique hdrs (header_of knd ext)"

definition is_av :: "string \<Rightarrow> bool" where
  "is_av knd = (knd = ''audio'' \<or> knd = ''video'')"

text \<open>One turn of the loop over \<open>sdpObject.media\<close>.\<close>

definition capabilities_step ::
  "(string \<Rightarrow> (string \<times> jsval) list) \<Rightarrow>
   (int \<times> codec_capability) list \<times> header_extension list \<Rightarrow> media_section \<Rightarrow>
   (int \<times> codec_capability) list \<times> header_extension list" where
  "capabilities_step parseFmtpConfig st m =
     (if \<not> is_av (m_type m) then st
      else
        (let codecsMap1 = foldl (add_rtp (m_type m)) (fst st) (m_rtp m);
             codecsMap2 = foldl (add_fmtp parseFmtpConfig) codecsMap1 (or_empty (m_fmtp m));
             codecsMap3 = foldl add_rtcpFb codecsMap2 (or_empty (m_rtcpFb m));
             hdrs = foldl (add_ext (m_type m)) (snd st) (or_empty (m_ext m))
         in (codecsMap3, hdrs)))"

definition capabilities_loop ::
  "(string \<Rightarrow> (string \<times> jsval) list) \<Rightarrow> media_section list \<Rightarrow>
   (int \<times> codec_capability) list \<times> header_extension list" where
  "capabilities_loop parseFmtpConfig ms = foldl (capabilities_step parseFmtpConfig) ([], []) ms"

definition extractCapabilities ::
  "(string \<Rightarrow> (string \<times> jsval) list) \<Rightarrow> sdp_object \<Rightarrow> rtp_capabilities" where
  "extractCapabilities parseFmtpConfig sdpObject =
     (let st = capabilities_loop parseFmtpConfig (media sdpObject) in
      \<lparr>codecs = Map_values (fst st), fecMechanisms = [], headerExtensions = snd st\<rparr>)"

section \<open>\<open>extractTrackInfos\<close>\<close>

record track_info =
  ti_kind :: string
  rtxSsrc :: "jsnum option"
  ssrc :: int
  cname :: "string option"
  streamId :: "string option"
  trackId :: "string option"

text \<open>
  The state of the loop: \<open>infos\<close> (a \<open>Map\<close> keyed by SSRC), \<open>rtxMap\<close> (a \<open>Map\<close> from
  the first to the second number of each FID group) and \<open>rtxSet\<close> (the \<open>Set\<close> of the
  second numbers). The three are declared before the loop over the media sections.
  A key or member may be \<open>undefined\<close> (a group line with one token) or \<open>NaN\<close>.
  The builtin \<open>Number\<close> is a parameter of the model.
\<close>

record track_state =
  infos :: "(int \<times> track_info) list"
  rtxMap :: "(jsnum option \<times> jsnum option) list"
  rtxSet :: "jsnum option set"

text \<open>\<open>ssrcGroup.ssrcs.split(' ').map(ssrc => Number(ssrc))\<close>.\<close>

definition group_numbers :: "(string \<Rightarrow> jsnum) \<Rightarrow> ssrc_group \<Rightarrow> jsnum list" where
  "group_numbers toNumber ssrcGroup = map toNumber (split CHR '' '' (group_ssrcs ssrcGroup))"

definition add_group :: "(string \<Rightarrow> jsnum) \<Rightarrow> track_state \<Rightarrow> ssrc_group \<Rightarrow> track_state" where
  "add_group toNumber st ssrcGroup =
     (if semantics ssrcGroup \<noteq> ''FID'' then st
      else
        (let ssrcs = group_numbers toNumber ssrcGroup;
             ssrc0 = at_index ssrcs 0;
             rtx = at_index ssrcs 1
         in st\<lparr>rtxMap := Map_set ssrc0 rtx (rtxMap st), rtxSet := insert rtx (rtxSet st)\<rparr>))"

text \<open>The \<open>switch (ssrcObject.attribute)\<close>.\<close>

definition set_attribute :: "ssrc_entry \<Rightarrow> track_info \<Rightarrow> track_info" where
  "set_attribute ssrcObject info =
     (if ssrc_attribute ssrcObject = ''cname'' then info\<lparr>cname := Some (ssrc_value ssrcObject)\<rparr>
      else if ssrc_attribute ssrcObject = ''msid'' then
        (let vals = split CHR '' '' (ssrc_value ssrcObject) in
         info\<lparr>streamId := at_index vals 0, trackId := at_index vals 1\<rparr>)
      else if ssrc_attribute ssrcObject = ''mslabel'' then info\<lparr>streamId := Some (ssrc_value ssrcObject)\<rparr>
      else if ssrc_attribute ssrcObject = ''label'' then info\<lparr>trackId := Some (ssrc_value ssrcObject)\<rparr>
      else info)"

definition add_ssrc :: "string \<Rightarrow> track_state \<Rightarrow> ssrc_entry \<Rightarrow> track_state" where
  "add_ssrc knd st ssrcObject =
     (let s = ssrc_id ssrcObject in
      if Some (Num s) \<in> rtxSet st then st
      else
        (let info = (case Map_get (infos st) s of
                       Some i \<Rightarrow> i
                     | None \<Rightarrow>
                         \<lparr>ti_kind = knd,
                          rtxSsrc = (case Map_get (rtxMap st) (Some (Num s)) of
                                       None \<Rightarrow> None | Some r \<Rightarrow> r),
                          ssrc = s, cname = None, streamId = None, trackId = None\<rparr>)
         in st\<lparr>infos := Map_set s (set_attribute ssrcObject info) (infos st)\<rparr>))"

definition track_step :: "(string \<Rightarrow> jsnum) \<Rightarrow> track_state \<Rightarrow> media_section \<Rightarrow> track_state" where
  "track_step toNumber st m =
     (if \<not> is_av (m_type m) then st
      else
        (let st1 = foldl (add_group toNumber) st (or_empty (m_ssrcGroups m))
         in foldl (add_ssrc (m_type m)) st1 (or_empty (m_ssrcs m))))"

definition track_loop :: "(string \<Rightarrow> jsnum) \<Rightarrow> media_section list \<Rightarrow> track_state" where
  "track_loop toNumber ms =
     foldl (track_step toNumber) \<lparr>infos = [], rtxMap = [], rtxSet = {}\<rparr> ms"

definition extractTrackInfos :: "(string \<Rightarrow> jsnum) \<Rightarrow> sdp_object \<Rightarrow> (int \<times> track_info) list" where
  "extractTrackInfos toNumber sdpObject = infos (track_loop toNumber (media sdpObject))"

section \<open>\<open>getLocalCapabilities\<close>\<close>

text \<open>
  \<open>RTCRtpReceiver.getCapabilities()\<close> is the browser's; its result is the parameter
  \<open>localFullCapabilities\<close>. A parameters object is an association list with distinct
  keys, \<open>Object.keys\<close> its keys in order.
\<close>

definition codec_matches :: "string \<Rightarrow> codec_capability \<Rightarrow> codec_capability \<Rightarrow> bool" where
  "codec_matches remoteCodecName remoteCodec codec =
     (toLowerCase (name codec) = remoteCodecName
      \<and> kind codec = kind remoteCodec
      \<and> clockRate codec = clockRate remoteCodec)"

text \<open>\<open>localFullCapabilities.codecs.find(...)\<close>: the first local codec that matches.\<close>

definition findLocalCodec :: "codec_capability list \<Rightarrow> codec_capability \<Rightarrow> codec_capability option" where
  "findLocalCodec localCodecs remoteCodec =
     find (codec_matches (toLowerCase (name remoteCodec)) remoteCodec) localCodecs"

text \<open>
  The inner loop over \<open>Object.keys(localCodec.parameters)\<close>, with its \<open>break\<close>;
  a key and the value read under it are one entry of the association list.
\<close>

fun local_params_loop ::
  "string \<Rightarrow> jsval \<Rightarrow> (string \<times> jsval) list \<Rightarrow> (string \<times> jsval) list \<Rightarrow> (string \<times> jsval) list" where
  "local_params_loop remoteParamName remoteParamValue [] params = params"
| "local_params_loop remoteParamName remoteParamValue (l # rest) params =
     (if fst l \<noteq> remoteParamName
      then local_params_loop remoteParamName remoteParamValue rest params
      else if snd l = remoteParamValue
      then Map_set (fst l) (snd l) params
      else local_params_loop remoteParamName remoteParamValue rest params)"

definition params_loop ::
  "(string \<times> jsval) list \<Rightarrow> (string \<times> jsval) list \<Rightarrow> (string \<times> jsval) list" where
  "params_loop remoteParams localParams =
     foldl (\<lambda>params r. local_params_loop (fst r) (snd r) localParams params) [] remoteParams"

definition feedback_step ::
  "rtcp_feedback list \<Rightarrow> rtcp_feedback list \<Rightarrow> rtcp_feedback \<Rightarrow> rtcp_feedback list" where
  "feedback_step localFbs fbs remoteFb =
     (case find (\<lambda>fb. fbtype fb = fbtype remoteFb \<and> parameter fb = parameter remoteFb) localFbs of
        Some localFb \<Rightarrow> fbs @ [localFb]
      | None \<Rightarrow> fbs)"

definition negotiated_codec :: "codec_capability \<Rightarrow> codec_capability \<Rightarrow> codec_capability" where
  "negotiated_codec localCodec remoteCodec =
     \<lparr>clockRate = clockRate localCodec,
      kind = kind localCodec,
      mimeType = kind localCodec @ ''/'' @ name localCodec,
      name = name localCodec,
      numChannels = Some (or_one (numChannels localCodec)),
      parameters = params_loop (parameters remoteCodec) (parameters localCodec),
      preferredPayloadType = preferredPayloadType remoteCodec,
      rtcpFeedback = foldl (feedback_step (rtcpFeedback localCodec)) [] (rtcpFeedback remoteCodec)\<rparr>"

text \<open>
  One turn of the loop over \<open>filterWithCapabilities.codecs\<close>; the state is
  \<open>localCapabilities.codecs\<close> and \<open>remoteRtxMap\<close>. The key of \<open>remoteRtxMap\<close> is
  \<open>remoteCodec.parameters.apt\<close>, which may be \<open>undefined\<close>.
\<close>

definition codec_step ::
  "codec_capability list \<Rightarrow> codec_capability list \<times> (jsval option \<times> int) list \<Rightarrow> codec_capability
     \<Rightarrow> codec_capability list \<times> (jsval option \<times> int) list" where
  "codec_step localCodecs st remoteCodec =
     (let remoteCodecName = toLowerCase (name remoteCodec) in
      if remoteCodecName = ''rtx''
      then (fst st, Map_set (map_of (parameters remoteCodec) ''apt'')
                      (preferredPayloadType remoteCodec) (snd st))
      else
        (case findLocalCodec localCodecs remoteCodec of
           None \<Rightarrow> st
         | Some localCodec \<Rightarrow> (fst st @ [negotiated_codec localCodec remoteCodec], snd st)))"

definition codecs_loop ::
  "codec_capability list \<Rightarrow> codec_capability list \<Rightarrow> codec_capability list \<times> (jsval option \<times> int) list" where
  "codecs_loop localCodecs remoteCodecs = foldl (codec_step localCodecs) ([], []) remoteCodecs"

definition rtx_codec :: "codec_capability \<Rightarrow> int \<Rightarrow> codec_capability" where
  "rtx_codec codec rtxPayloadType =
     \<lparr>clockRate = clockRate codec,
      kind = kind codec,
      mimeType = kind codec @ ''/rtx'',
      name = ''rtx'',
      numChannels = None,
      parameters = [(''apt'', JNum (preferredPayloadType codec))],
      preferredPayloadType = rtxPayloadType,
      rtcpFeedback = []\<rparr>"

text \<open>
  The loop \<open>for (const codec of localCapabilities.codecs)\<close> pushes onto the array it
  iterates. An array iterator reads the length anew at every step, so the pushed
  entries are visited too: the loop is a walk by index over a growing list, and it need
  not end. \<open>None\<close> is the run that never returns.
\<close>

partial_function (option) rtx_loop ::
  "(jsval option \<times> int) list \<Rightarrow> nat \<Rightarrow> codec_capability list \<Rightarrow> codec_capability list option" where
  "rtx_loop remoteRtxMap i cs =
     (if i < length cs
      then (case Map_get remoteRtxMap (Some (JNum (preferredPayloadType (cs ! i)))) of
              None \<Rightarrow> rtx_loop remoteRtxMap (i + 1) cs
            | Some rtxPayloadType \<Rightarrow>
                rtx_loop remoteRtxMap (i + 1) (cs @ [rtx_codec (cs ! i) rtxPayloadType]))
      else Some cs)"

declare rtx_loop.simps [code]

text \<open>\<open>Boolean(remoteExtension.preferredEncrypt)\<close>.\<close>

definition Boolean :: "bool option \<Rightarrow> bool" where
  "Boolean b = (case b of None \<Rightarrow> False | Some v \<Rightarrow> v)"

definition extension_step ::
  "header_extension list \<Rightarrow> header_extension list \<Rightarrow> header_extension \<Rightarrow> header_extension list" where
  "extension_step localExtensions exts remoteExtension =
     (case find (\<lambda>extension. hkind extension = hkind remoteExtension
                              \<and> uri extension = uri remoteExtension) localExtensions of
        Some localExtension \<Rightarrow>
          exts @ [\<lparr>hkind = hkind localExtension, uri = uri localExtension,
                   preferredId = preferredId remoteExtension,
                   preferredEncrypt = Some (Boolean (preferredEncrypt remoteExtension))\<rparr>]
      | None \<Rightarrow> exts)"

text \<open>A found mechanism is pushed when it is truthy: the empty string is not.\<close>

definition fec_step :: "string list \<Rightarrow> string list \<Rightarrow> string \<Rightarrow> string list" where
  "fec_step localFecs fecs remoteFecMechanism =
     (case find (\<lambda>fec. fec = remoteFecMechanism) localFecs of
        Some localFecMechanism \<Rightarrow>
          (if localFecMechanism \<noteq> [] then fecs @ [localFecMechanism] else fecs)
      | None \<Rightarrow> fecs)"

definition getLocalCapabilities :: "rtp_capabilities \<Rightarrow> rtp_capabilities \<Rightarrow> rtp_capabilities option" where
  "getLocalCapabilities localFullCapabilities filterWithCapabilities =
     (let st = codecs_loop (codecs localFullCapabilities) (codecs filterWithCapabilities) in
      case rtx_loop (snd st) 0 (fst st) of
        None \<Rightarrow> None
      | Some cs \<Rightarrow>
          Some \<lparr>codecs = cs,
                fecMechanisms =
                  foldl (fec_step (fecMechanisms localFullCapabilities)) []
                    (fecMechanisms filterWithCapabilities),
                headerExtensions =
                  foldl (extension_step (headerExtensions localFullCapabilities)) []
                    (headerExtensions filterWithCapabilities)\<rparr>)"

section \<open>Example documents and capability records\<close>

definition empty_section :: media_section where
  "empty_section =
     \<lparr>m_type = ''video'', m_port = 0, m_mid = None, m_rtp = [], m_fmtp = None, m_rtcpFb = None,
      m_ext = None, m_ssrcGroups = None, m_ssrcs = None, m_candidates = None,
      m_iceUfrag = None, m_icePwd = None, m_setup = None, m_fingerprint = None\<rparr>"

definition dtls_section :: "string option \<Rightarrow> media_section" where
  "dtls_section s =
     empty_section\<lparr>m_port := 9, m_iceUfrag := Some ''u1'', m_icePwd := Some ''pw'',
       m_setup := s, m_candidates := Some [],
       m_fingerprint := Some \<lparr>fp_type = ''sha-256'', fp_hash = ''AB:CD''\<rparr>\<rparr>"

definition dtls_doc :: "string option \<Rightarrow> sdp_object" where
  "dtls_doc s = \<lparr>media = [empty_section, dtls_section s], s_icelite = None, s_fingerprint = None\<rparr>"

definition inactive_doc :: sdp_object where
  "inactive_doc =
     \<lparr>media = [empty_section, empty_section\<lparr>m_iceUfrag := Some ''u1''\<rparr>, empty_section\<lparr>m_port := 9\<rparr>],
      s_icelite = None,
      s_fingerprint = Some \<lparr>fp_type = ''sha-256'', fp_hash = ''AB:CD''\<rparr>\<rparr>"

definition nack :: rtcp_feedback where "nack = \<lparr>parameter = '''', fbtype = ''nack''\<rparr>"
definition ccm_fir :: rtcp_feedback where "ccm_fir = \<lparr>parameter = ''fir'', fbtype = ''ccm''\<rparr>"

definition local_vp8 :: codec_capability where
  "local_vp8 =
     \<lparr>clockRate = 90000, kind = ''video'', mimeType = ''video/VP8'', name = ''VP8'',
      numChannels = None, parameters = [], preferredPayloadType = 100,
      rtcpFeedback = [nack, ccm_fir]\<rparr>"

definition local_opus :: codec_capability where
  "local_opus =
     \<lparr>clockRate = 48000, kind = ''audio'', mimeType = ''audio/opus'', name = ''opus'',
      numChannels = Some 2, parameters = [], preferredPayloadType = 102,
      rtcpFeedback = []\<rparr>"

definition local_caps :: "codec_capability list \<Rightarrow> rtp_capabilities" where
  "local_caps cs = \<lparr>codecs = cs, fecMechanisms = [], headerExtensions = []\<rparr>"

definition remote_codec ::
  "string \<Rightarrow> string \<Rightarrow> int \<Rightarrow> int \<Rightarrow> (string \<times> jsval) list \<Rightarrow> rtcp_feedback list \<Rightarrow> codec_capability" where
  "remote_codec knd nm rate pt ps fbs =
     \<lparr>clockRate = rate, kind = knd, mimeType = knd @ ''/'' @ nm, name = nm,
      numChannels = Some 1, parameters = ps, preferredPayloadType = pt, rtcpFeedback = fbs\<rparr>"

definition remote_caps :: "codec_capability list \<Rightarrow> rtp_capabilities" where
  "remote_caps cs = \<lparr>codecs = cs, fecMechanisms = [], headerExtensions = []\<rparr>"

definition remote_chain :: rtp_capabilities where
  "remote_chain =
     remote_caps [remote_codec ''video'' ''VP8'' 90000 96 [] [],
                  remote_codec ''video'' ''rtx'' 90000 97 [(''apt'', JNum 96)] [],
                  remote_codec ''video'' ''rtx'' 90000 98 [(''apt'', JNum 97)] []]"

definition remote_mixed :: rtp_capabilities where
  "remote_mixed =
     remote_caps [remote_codec ''video'' ''vp8'' 90000 96 [] [],
                  remote_codec ''video'' ''H264'' 90000 99 [] [],
                  remote_codec ''video'' ''RTX'' 90000 97 [(''apt'', JNum 96)] []]"

definition remote_self :: rtp_capabilities where
  "remote_self =
     remote_caps [remote_codec ''video'' ''VP8'' 90000 96 [] [],
                  remote_codec ''video'' ''rtx'' 90000 96 [(''apt'', JNum 96)] []]"

definition remote_feedback :: rtp_capabilities where
  "remote_feedback =
     remote_caps [remote_codec ''video'' ''VP8'' 90000 96 [] [ccm_fir, nack, ccm_fir]]"

definition example_parse :: "string \<Rightarrow> (string \<times> jsval) list" where
  "example_parse cfg = [(''config'', JStr cfg)]"

definition audio_section :: media_section where
  "audio_section =
     empty_section\<lparr>m_type := ''audio'',
       m_rtp := [\<lparr>rtp_payload = 111, rtp_codec = ''opus'', rtp_rate = 48000, rtp_encoding = Some 2\<rparr>,
                 \<lparr>rtp_payload = 0, rtp_codec = ''PCMU'', rtp_rate = 8000, rtp_encoding = None\<rparr>]\<rparr>"

definition video_section :: media_section where
  "video_section =
     empty_section\<lparr>m_type := ''video'',
       m_rtp := [\<lparr>rtp_payload = 96, rtp_codec = ''VP8'', rtp_rate = 90000, rtp_encoding = None\<rparr>,
                 \<lparr>rtp_payload = 111, rtp_codec = ''H264'', rtp_rate = 90000, rtp_encoding = None\<rparr>],
       m_fmtp := Some [\<lparr>fmtp_payload = 0, fmtp_config = ''x=1''\<rparr>,
                       \<lparr>fmtp_payload = 96, fmtp_config = ''y=2''\<rparr>],
       m_rtcpFb := Some [\<lparr>fb_payload = 0, fb_type = ''nack'', fb_subtype = None\<rparr>]\<rparr>"

definition doc_of :: "media_section list \<Rightarrow> sdp_object" where
  "doc_of ms = \<lparr>media = ms, s_icelite = None, s_fingerprint = None\<rparr>"

definition ext_section :: "(int \<times> string) list \<Rightarrow> media_section" where
  "ext_section es =
     empty_section\<lparr>m_type := ''audio'',
       m_ext := Some (map (\<lambda>e. \<lparr>ext_value = fst e, ext_uri = snd e\<rparr>) es)\<rparr>"

text \<open>
  \<open>Number\<close> on the tokens of the examples: an unsigned decimal numeral (the empty
  token is 0). Every other token is mapped to \<open>NaN\<close> here, which is not what
  \<open>Number\<close> does on signed, fractional or hexadecimal numerals; the properties
  below are proved for every conversion function.
\<close>

fun decimal_from :: "int \<Rightarrow> string \<Rightarrow> jsnum" where
  "decimal_from n [] = Num n"
| "decimal_from n (c # cs) =
     (if 48 \<le> (of_char c :: nat) \<and> (of_char c :: nat) \<le> 57
      then decimal_from (10 * n + int (of_char c) - 48) cs
      else NaN)"

definition decimal_Number :: "string \<Rightarrow> jsnum" where
  "decimal_Number s = decimal_from 0 s"

definition ssrc_section :: "string \<Rightarrow> ssrc_group list \<Rightarrow> ssrc_entry list \<Rightarrow> media_section" where
  "ssrc_section knd groups lines =
     empty_section\<lparr>m_type := knd, m_ssrcGroups := Some groups, m_ssrcs := Some lines\<rparr>"

definition track_doc :: sdp_object where
  "track_doc =
     doc_of [ssrc_section ''audio'' []
               [\<lparr>ssrc_id = 333, ssrc_attribute = ''cname'', ssrc_value = ''a''\<rparr>],
             ssrc_section ''video'' [\<lparr>semantics = ''FID'', group_ssrcs = ''111 222''\<rparr>]
               [\<lparr>ssrc_id = 222, ssrc_attribute = ''cname'', ssrc_value = ''v''\<rparr>,
                \<lparr>ssrc_id = 111, ssrc_attribute = ''msid'', ssrc_value = ''stream1 track1''\<rparr>]]"

definition late_group_doc :: sdp_object where
  "late_group_doc =
     doc_of [ssrc_section ''audio'' []
               [\<lparr>ssrc_id = 222, ssrc_attribute = ''cname'', ssrc_value = ''a''\<rparr>],
             ssrc_section ''video'' [\<lparr>semantics = ''FID'', group_ssrcs = ''111 222''\<rparr>]
               [\<lparr>ssrc_id = 111, ssrc_attribute = ''msid'', ssrc_value = ''stream1 track1''\<rparr>]]"

definition application_group_doc :: sdp_object where
  "application_group_doc =
     doc_of [ssrc_section ''application'' [\<lparr>semantics = ''FID'', group_ssrcs = ''111 222''\<rparr>] [],
             ssrc_section ''video'' []
               [\<lparr>ssrc_id = 222, ssrc_attribute = ''cname'', ssrc_value = ''v''\<rparr>,
                \<lparr>ssrc_id = 111, ssrc_attribute = ''msid'', ssrc_value = ''stream1 track1''\<rparr>]]"

section \<open>Properties of the DTLS and ICE extraction\<close>

lemma find_first: "\<forall>x\<in>set pre. \<not> P x \<Longrightarrow> P m \<Longrightarrow> find P (pre @ m # post) = Some m"
  by (induction pre) auto

lemma candidates_loop_eq:
  "candidates_loop acc cs = acc @ map candidate_of (filter (\<lambda>c. c_component c = 1) cs)"
  by (induction cs arbitrary: acc) auto

lemma is_active_iff:
  "is_active m \<longleftrightarrow> (\<exists>u. m_iceUfrag m = Some u \<and> u \<noteq> []) \<and> m_port m \<noteq> 0"
  by (auto simp: is_active_def split: option.splits)

text \<open>
  Claim C3, as the code has it. When the document has an active media section and a
  fingerprint (at media level, else at session level), \<open>extractDtlsParameters\<close>
  returns a record whose role is \<open>client\<close> for the setup value \<open>active\<close>,
  \<open>server\<close> for \<open>passive\<close> and \<open>auto\<close> for \<open>actpass\<close>. For any other
  setup value, and for a missing one, it returns a record too: the role is absent,
  the switch having no default case, and nothing fails.
\<close>

theorem extractDtlsParameters_role:
  assumes "getFirstActiveMediaSection sdpObject = Some m"
    and "(case m_fingerprint m of Some f \<Rightarrow> Some f | None \<Rightarrow> s_fingerprint sdpObject) = Some fp"
  shows "extractDtlsParameters sdpObject =
           Inr \<lparr>role = (if m_setup m = Some ''active'' then Some ''client''
                         else if m_setup m = Some ''passive'' then Some ''server''
                         else if m_setup m = Some ''actpass'' then Some ''auto''
                         else None),
                fingerprints = [\<lparr>algorithm = fp_type fp, fp_value = fp_hash fp\<rparr>]\<rparr>"
  using assms by (simp add: extractDtlsParameters_def setup_role_def)

lemma dtls_doc_active: "getFirstActiveMediaSection (dtls_doc s) = Some (dtls_section s)"
  by (simp add: getFirstActiveMediaSection_def dtls_doc_def dtls_section_def empty_section_def is_active_def)

theorem extractDtlsParameters_role_witness:
  "getFirstActiveMediaSection (dtls_doc (Some ''actpass'')) = Some (dtls_section (Some ''actpass''))
   \<and> extractDtlsParameters (dtls_doc (Some ''actpass'')) =
       Inr \<lparr>role = Some ''auto'', fingerprints = [\<lparr>algorithm = ''sha-256'', fp_value = ''AB:CD''\<rparr>]\<rparr>"
  using extractDtlsParameters_role [OF dtls_doc_active, of "Some ''actpass''" "\<lparr>fp_type = ''sha-256'', fp_hash = ''AB:CD''\<rparr>"]
  by (simp add: dtls_doc_active) (simp add: dtls_section_def empty_section_def)

text \<open>
  Claim C3 as stated asks for a failure on an unknown or missing setup value. On a document
  whose active section has the setup value \<open>holdconn\<close>, and on one that has none,
  the extraction returns a record with no role.
\<close>

theorem extractDtlsParameters_unknown_setup_counterexample:
  "extractDtlsParameters (dtls_doc (Some ''holdconn'')) =
       Inr \<lparr>role = None, fingerprints = [\<lparr>algorithm = ''sha-256'', fp_value = ''AB:CD''\<rparr>]\<rparr>
   \<and> extractDtlsParameters (dtls_doc None) =
       Inr \<lparr>role = None, fingerprints = [\<lparr>algorithm = ''sha-256'', fp_value = ''AB:CD''\<rparr>]\<rparr>"
  by (simp add: extractDtlsParameters_def dtls_doc_active)
     (simp add: dtls_section_def empty_section_def setup_role_def)

text \<open>
  Claim C4. When no media section has both a non-empty ICE user fragment and a nonzero
  port, \<open>extractDtlsParameters\<close>, \<open>extractIceParameters\<close> and
  \<open>extractIceCandidates\<close> all fail: the read of a property of \<open>undefined\<close>
  throws, and the error reaches the caller; no record is returned. Otherwise the section
  used is the first one that satisfies both conditions, and the three results are read
  from it.
\<close>

theorem active_section_selection:
  "((\<forall>m\<in>set (media sdpObject). \<not> ((\<exists>u. m_iceUfrag m = Some u \<and> u \<noteq> []) \<and> m_port m \<noteq> 0)) \<longrightarrow>
      extractDtlsParameters sdpObject = Inl TypeError
      \<and> extractIceParameters sdpObject = Inl TypeError
      \<and> extractIceCandidates sdpObject = Inl TypeError)
   \<and> (media sdpObject = pre @ m # post
       \<and> (\<forall>x\<in>set pre. \<not> ((\<exists>u. m_iceUfrag x = Some u \<and> u \<noteq> []) \<and> m_port x \<noteq> 0))
       \<and> (\<exists>u. m_iceUfrag m = Some u \<and> u \<noteq> []) \<and> m_port m \<noteq> 0 \<longrightarrow>
      getFirstActiveMediaSection sdpObject = Some m
      \<and> extractIceParameters sdpObject =
          Inr \<lparr>icelite = (s_icelite sdpObject = Some ''ice-lite''), password = m_icePwd m,
               usernameFragment = m_iceUfrag m\<rparr>
      \<and> extractIceCandidates sdpObject =
          (case m_candidates m of
             None \<Rightarrow> Inl TypeError
           | Some cs \<Rightarrow> Inr (map candidate_of (filter (\<lambda>c. c_component c = 1) cs)))
      \<and> extractDtlsParameters sdpObject =
          (case (case m_fingerprint m of Some f \<Rightarrow> Some f | None \<Rightarrow> s_fingerprint sdpObject) of
             None \<Rightarrow> Inl TypeError
           | Some fp \<Rightarrow> Inr \<lparr>role = setup_role (m_setup m),
                              fingerprints = [\<lparr>algorithm = fp_type fp, fp_value = fp_hash fp\<rparr>]\<rparr>))"
proof (intro conjI impI)
  assume none: "\<forall>m\<in>set (media sdpObject). \<not> ((\<exists>u. m_iceUfrag m = Some u \<and> u \<noteq> []) \<and> m_port m \<noteq> 0)"
  then have "getFirstActiveMediaSection sdpObject = None"
    by (auto simp: getFirstActiveMediaSection_def find_None_iff is_active_iff)
  then show "extractDtlsParameters sdpObject = Inl TypeError"
    "extractIceParameters sdpObject = Inl TypeError"
    "extractIceCandidates sdpObject = Inl TypeError"
    by (simp_all add: extractDtlsParameters_def extractIceParameters_def extractIceCandidates_def)
next
  assume h: "media sdpObject = pre @ m # post
       \<and> (\<forall>x\<in>set pre. \<not> ((\<exists>u. m_iceUfrag x = Some u \<and> u \<noteq> []) \<and> m_port x \<noteq> 0))
       \<and> (\<exists>u. m_iceUfrag m = Some u \<and> u \<noteq> []) \<and> m_port m \<noteq> 0"
  then have "\<forall>x\<in>set pre. \<not> is_active x" "is_active m"
    by (simp_all add: is_active_iff)
  with h show first: "getFirstActiveMediaSection sdpObject = Some m"
    by (simp add: getFirstActiveMediaSection_def find_first)
  show "extractIceParameters sdpObject =
          Inr \<lparr>icelite = (s_icelite sdpObject = Some ''ice-lite''), password = m_icePwd m,
               usernameFragment = m_iceUfrag m\<rparr>"
    by (simp add: extractIceParameters_def first)
  show "extractIceCandidates sdpObject =
          (case m_candidates m of
             None \<Rightarrow> Inl TypeError
           | Some cs \<Rightarrow> Inr (map candidate_of (filter (\<lambda>c. c_component c = 1) cs)))"
    by (simp add: extractIceCandidates_def first candidates_loop_eq split: option.splits)
  show "extractDtlsParameters sdpObject =
          (case (case m_fingerprint m of Some f \<Rightarrow> Some f | None \<Rightarrow> s_fingerprint sdpObject) of
             None \<Rightarrow> Inl TypeError
           | Some fp \<Rightarrow> Inr \<lparr>role = setup_role (m_setup m),
                              fingerprints = [\<lparr>algorithm = fp_type fp, fp_value = fp_hash fp\<rparr>]\<rparr>)"
    by (simp add: extractDtlsParameters_def first)
qed

theorem active_section_selection_witness:
  "extractDtlsParameters inactive_doc = Inl TypeError
   \<and> extractIceParameters inactive_doc = Inl TypeError
   \<and> extractIceCandidates inactive_doc = Inl TypeError
   \<and> getFirstActiveMediaSection (dtls_doc (Some ''active'')) = Some (dtls_section (Some ''active''))
   \<and> extractIceParameters (dtls_doc (Some ''active'')) =
       Inr \<lparr>icelite = False, password = Some ''pw'', usernameFragment = Some ''u1''\<rparr>
   \<and> extractIceCandidates (dtls_doc (Some ''active'')) = Inr []"
  using active_section_selection [of inactive_doc "[]" empty_section "[]"]
    active_section_selection [of "dtls_doc (Some ''active'')" "[empty_section]" "dtls_section (Some ''active'')" "[]"]
  by (simp add: inactive_doc_def dtls_doc_def dtls_section_def empty_section_def)

section \<open>Properties of the ordered map\<close>

lemma set_Map_set: "set (Map_set k v m) \<subseteq> insert (k, v) (set m)"
  by (induction m) auto

lemma map_of_Map_set: "map_of (Map_set k v m) = (map_of m)(k \<mapsto> v)"
  by (induction m) (auto simp: fun_eq_iff)

lemma keys_Map_set:
  "map fst (Map_set k v m) = (if k \<in> fst ` set m then map fst m else map fst m @ [k])"
  by (induction m) auto

lemma distinct_Map_set: "distinct (map fst m) \<Longrightarrow> distinct (map fst (Map_set k v m))"
  by (simp add: keys_Map_set)

lemma Map_set_map:
  "map (apsnd f) (Map_set k v m) = Map_set k (f v) (map (apsnd f) m)"
  by (induction m) auto

lemma Map_set_same: "map_of m k = Some v \<Longrightarrow> Map_set k v m = m"
  by (induction m) (auto split: if_splits)

lemma map_of_map_apsnd:
  "map_of (map (apsnd f) m) k = map_option f (map_of m k)"
  by (induction m) auto

text \<open>Folding \<open>Map_set\<close> over a list of entries.\<close>

lemma keys_foldl_Map_set:
  "map fst (foldl (\<lambda>m e. Map_set (key e) (val e) m) m0 es) =
     map fst m0 @ rev (remdups (rev (filter (\<lambda>k. k \<notin> fst ` set m0) (map key es))))"
proof (induction es rule: rev_induct)
  case Nil
  then show ?case by simp
next
  case (snoc e es)
  have "fst ` set (foldl (\<lambda>m e. Map_set (key e) (val e) m) m0 es) = fst ` set m0 \<union> key ` set es"
    (is "fst ` set ?m = _")
  proof -
    have "fst ` set ?m = set (map fst ?m)" by simp
    also have "\<dots> = fst ` set m0 \<union> key ` set es" unfolding snoc.IH by auto
    finally show ?thesis .
  qed
  then show ?case
    by (auto simp: keys_Map_set snoc.IH)
qed

lemma map_of_foldl_Map_set_last:
  "es = pre @ e # post \<Longrightarrow> \<forall>x\<in>set post. key x \<noteq> key e \<Longrightarrow>
   map_of (foldl (\<lambda>m e. Map_set (key e) (val e) m) m0 es) (key e) = Some (val e)"
proof (induction post arbitrary: es rule: rev_induct)
  case Nil
  then show ?case by (simp add: map_of_Map_set)
next
  case (snoc x post)
  from snoc.prems have "key x \<noteq> key e" by simp
  moreover have "map_of (foldl (\<lambda>m e. Map_set (key e) (val e) m) m0 (pre @ e # post)) (key e) = Some (val e)"
    using snoc.prems by (intro snoc.IH) auto
  ultimately show ?case using snoc.prems(1) by (simp add: map_of_Map_set)
qed

lemma map_of_foldl_Map_set_other:
  "\<forall>x\<in>set es. key x \<noteq> k \<Longrightarrow>
   map_of (foldl (\<lambda>m e. Map_set (key e) (val e) m) m0 es) k = map_of m0 k"
  by (induction es rule: rev_induct) (auto simp: map_of_Map_set)

section \<open>Properties of the negotiation\<close>

lemma findLocalCodec_None:
  "findLocalCodec L r = None \<longleftrightarrow>
     \<not> (\<exists>l\<in>set L. toLowerCase (name l) = toLowerCase (name r) \<and> kind l = kind r
                     \<and> clockRate l = clockRate r)"
  by (auto simp: findLocalCodec_def codec_matches_def find_None_iff)

lemma findLocalCodec_Some:
  "findLocalCodec L r = Some l \<Longrightarrow>
     l \<in> set L \<and> toLowerCase (name l) = toLowerCase (name r) \<and> kind l = kind r
       \<and> clockRate l = clockRate r"
  by (auto simp: findLocalCodec_def codec_matches_def find_Some_iff)

lemma fst_foldl_codec_step:
  "fst (foldl (codec_step L) st R) =
     fst st @ map (\<lambda>r. negotiated_codec (the (findLocalCodec L r)) r)
                (filter (\<lambda>r. toLowerCase (name r) \<noteq> ''rtx'' \<and> findLocalCodec L r \<noteq> None) R)"
  by (induction R arbitrary: st) (auto simp: codec_step_def Let_def split: option.splits)

lemma snd_foldl_codec_step:
  "snd (foldl (codec_step L) st R) =
     foldl (\<lambda>m r. Map_set (map_of (parameters r) ''apt'') (preferredPayloadType r) m) (snd st)
       (filter (\<lambda>r. toLowerCase (name r) = ''rtx'') R)"
  by (induction R arbitrary: st) (auto simp: codec_step_def Let_def split: option.splits)


lemma feedback_eq: "(l :: rtcp_feedback) = r \<longleftrightarrow> fbtype l = fbtype r \<and> parameter l = parameter r"
  by (cases l, cases r) auto

lemma feedback_step_eq:
  "feedback_step lf acc r = (if r \<in> set lf then acc @ [r] else acc)"
proof (cases "find (\<lambda>fb. fbtype fb = fbtype r \<and> parameter fb = parameter r) lf")
  case None
  then have "r \<notin> set lf" by (auto simp: find_None_iff)
  with None show ?thesis by (simp add: feedback_step_def)
next
  case (Some l)
  then have "l \<in> set lf" "l = r"
    by (auto simp: find_Some_iff feedback_eq [of l r])
  with Some show ?thesis by (simp add: feedback_step_def)
qed

lemma foldl_feedback_step:
  "foldl (feedback_step lf) acc rf = acc @ filter (\<lambda>fb. fb \<in> set lf) rf"
  by (induction rf arbitrary: acc) (simp_all add: feedback_step_eq)


lemma matched_filter:
  "filter (\<lambda>r. toLowerCase (name r) \<noteq> ''rtx'' \<and> findLocalCodec L r \<noteq> None) R =
   filter (\<lambda>r. toLowerCase (name r) \<noteq> ''rtx'' \<and>
              (\<exists>l\<in>set L. toLowerCase (name l) = toLowerCase (name r) \<and> kind l = kind r
                           \<and> clockRate l = clockRate r)) R"
  by (rule filter_cong) (auto simp: findLocalCodec_None)

lemma primary_codecs:
  "fst (codecs_loop L R) =
     map (\<lambda>r. negotiated_codec (the (findLocalCodec L r)) r)
       (filter (\<lambda>r. toLowerCase (name r) \<noteq> ''rtx'' \<and>
              (\<exists>l\<in>set L. toLowerCase (name l) = toLowerCase (name r) \<and> kind l = kind r
                           \<and> clockRate l = clockRate r)) R)"
  by (simp only: codecs_loop_def fst_foldl_codec_step matched_filter fst_conv append_Nil)

lemma list_all2_map_filter:
  "(\<And>x. x \<in> set xs \<Longrightarrow> P x \<Longrightarrow> Q (f x) x) \<Longrightarrow> list_all2 Q (map f (filter P xs)) (filter P xs)"
  by (simp add: list_all2_map1 list_all2_same)


lemma feedback_mem_iff:
  "(\<exists>rf\<in>set xs. fbtype rf = fbtype fb \<and> parameter rf = parameter fb) \<longleftrightarrow>
     (fb :: rtcp_feedback) \<in> set xs"
  by (metis feedback_eq)

lemma findLocalCodec_perm:
  "mset L = mset L' \<Longrightarrow> (findLocalCodec L r = None) = (findLocalCodec L' r = None)"
  using mset_eq_setD [of L L'] by (simp add: findLocalCodec_None)

lemma rtx_loop_payload_types:
  assumes "rtx_loop m i cs = Some res"
  shows "\<forall>cs' :: codec_capability list. map preferredPayloadType cs' = map preferredPayloadType cs \<longrightarrow>
           (\<exists>res'. rtx_loop m i cs' = Some res'
              \<and> map preferredPayloadType res' = map preferredPayloadType res)"
proof (rule rtx_loop.raw_induct
    [where P = "\<lambda>m i cs res. \<forall>cs' :: codec_capability list. map preferredPayloadType cs' = map preferredPayloadType cs \<longrightarrow>
           (\<exists>res'. rtx_loop m i cs' = Some res'
              \<and> map preferredPayloadType res' = map preferredPayloadType res)",
      OF _ assms])
  fix loop and m :: "(jsval option \<times> int) list" and i cs res
  assume IH: "\<And>m i cs y. loop m i cs = Some y \<Longrightarrow>
                 \<forall>cs' :: codec_capability list. map preferredPayloadType cs' = map preferredPayloadType cs \<longrightarrow>
                   (\<exists>res'. rtx_loop m i cs' = Some res'
                      \<and> map preferredPayloadType res' = map preferredPayloadType y)"
    and body: "(if i < length cs
                then case Map_get m (Some (JNum (preferredPayloadType (cs ! i)))) of
                       None \<Rightarrow> loop m (i + 1) cs
                     | Some rtxPayloadType \<Rightarrow>
                         loop m (i + 1) (cs @ [rtx_codec (cs ! i) rtxPayloadType])
                else Some cs) = Some res"
  show "\<forall>cs' :: codec_capability list. map preferredPayloadType cs' = map preferredPayloadType cs \<longrightarrow>
           (\<exists>res'. rtx_loop m i cs' = Some res'
              \<and> map preferredPayloadType res' = map preferredPayloadType res)"
  proof (intro allI impI)
    fix cs' :: "codec_capability list"
    assume eq: "map preferredPayloadType cs' = map preferredPayloadType cs"
    then have len: "length cs' = length cs" by (rule map_eq_imp_length_eq)
    show "\<exists>res'. rtx_loop m i cs' = Some res'
              \<and> map preferredPayloadType res' = map preferredPayloadType res"
    proof (cases "i < length cs")
      case False
      with body have "res = cs" by simp
      moreover from False len have "rtx_loop m i cs' = Some cs'"
        by (subst rtx_loop.simps) simp
      ultimately show ?thesis using eq by simp
    next
      case True
      have "preferredPayloadType (cs' ! i) = map preferredPayloadType cs' ! i"
        using True len by simp
      also have "\<dots> = map preferredPayloadType cs ! i" by (simp only: eq)
      also have "\<dots> = preferredPayloadType (cs ! i)" using True by simp
      finally have pt: "preferredPayloadType (cs' ! i) = preferredPayloadType (cs ! i)" .
      show ?thesis
      proof (cases "Map_get m (Some (JNum (preferredPayloadType (cs ! i))))")
        case None
        with True body have "loop m (i + 1) cs = Some res" by simp
        from IH [OF this] eq obtain res'
          where r: "rtx_loop m (i + 1) cs' = Some res'"
            "map preferredPayloadType res' = map preferredPayloadType res"
          by blast
        from True len None pt r(1) have "rtx_loop m i cs' = Some res'"
          by (subst rtx_loop.simps) simp
        with r(2) show ?thesis by blast
      next
        case (Some p)
        with True body have "loop m (i + 1) (cs @ [rtx_codec (cs ! i) p]) = Some res" by simp
        moreover have "map preferredPayloadType (cs' @ [rtx_codec (cs' ! i) p])
                        = map preferredPayloadType (cs @ [rtx_codec (cs ! i) p])"
          using eq by (simp add: rtx_codec_def)
        ultimately obtain res'
          where r: "rtx_loop m (i + 1) (cs' @ [rtx_codec (cs' ! i) p]) = Some res'"
            "map preferredPayloadType res' = map preferredPayloadType res"
          using IH by blast
        from True len Some pt r(1) have "rtx_loop m i cs' = Some res'"
          by (subst rtx_loop.simps) simp
        with r(2) show ?thesis by blast
      qed
    qed
  qed
qed

lemma getLocalCapabilities_None:
  "(getLocalCapabilities local remote = None) =
     (rtx_loop (snd (codecs_loop (codecs local) (codecs remote))) 0
        (fst (codecs_loop (codecs local) (codecs remote))) = None)"
  by (simp add: getLocalCapabilities_def Let_def split: option.splits)

lemma getLocalCapabilities_Some:
  "getLocalCapabilities local remote = Some res \<Longrightarrow>
     rtx_loop (snd (codecs_loop (codecs local) (codecs remote))) 0
        (fst (codecs_loop (codecs local) (codecs remote))) = Some (codecs res)"
  by (auto simp: getLocalCapabilities_def Let_def split: option.splits)

lemma rtx_loop_None_cong:
  fixes cs cs' :: "codec_capability list"
  assumes "map preferredPayloadType cs' = map preferredPayloadType cs"
  shows "(rtx_loop m i cs' = None) = (rtx_loop m i cs = None)"
proof (rule iffI; rule ccontr)
  assume a: "rtx_loop m i cs' = None" and "rtx_loop m i cs \<noteq> None"
  then obtain res where "rtx_loop m i cs = Some res" by blast
  from rtx_loop_payload_types [OF this] assms a show False by fastforce
next
  assume a: "rtx_loop m i cs = None" and "rtx_loop m i cs' \<noteq> None"
  then obtain res where "rtx_loop m i cs' = Some res" by blast
  from rtx_loop_payload_types [OF this] assms [symmetric] a show False by fastforce
qed

lemma rtx_loop_Some_cong:
  fixes cs cs' :: "codec_capability list"
  assumes "map preferredPayloadType cs' = map preferredPayloadType cs"
    and "rtx_loop m i cs = Some res" and "rtx_loop m i cs' = Some res'"
  shows "map preferredPayloadType res' = map preferredPayloadType res"
  using rtx_loop_payload_types [OF assms(2)] assms(1,3) by fastforce

lemma lower_examples:
  "toLowerCase ''VP8'' = ''vp8''" "toLowerCase ''vp8'' = ''vp8''" "toLowerCase ''rtx'' = ''rtx''"
  "toLowerCase ''RTX'' = ''rtx''" "toLowerCase ''H264'' = ''h264''" "toLowerCase ''opus'' = ''opus''"
  by code_simp+

lemmas negotiation_defs =
  getLocalCapabilities_def codecs_loop_def codec_step_def findLocalCodec_def codec_matches_def
  negotiated_codec_def or_one_def params_loop_def feedback_step_def rtx_loop.simps Map_get_def
  rtx_codec_def lower_examples local_caps_def remote_caps_def remote_codec_def local_vp8_def
  local_opus_def nack_def ccm_fir_def

subsection \<open>When the call returns\<close>









subsection \<open>The negotiated codecs\<close>




text \<open>
  Claim C9. When the local codec list is permuted, the same remote codecs are matched:
  the matched remote codecs form the same list, the negotiated codecs carry the same
  payload types in the same order, the call returns under one ordering if and only if it
  returns under the other, and the payload types of the returned codecs agree.
\<close>

theorem local_order_independent:
  assumes "mset (codecs local') = mset (codecs local)"
  shows "filter (\<lambda>r. toLowerCase (name r) \<noteq> ''rtx'' \<and> findLocalCodec (codecs local') r \<noteq> None)
             (codecs remote)
           = filter (\<lambda>r. toLowerCase (name r) \<noteq> ''rtx'' \<and> findLocalCodec (codecs local) r \<noteq> None)
               (codecs remote)
       \<and> map preferredPayloadType (fst (codecs_loop (codecs local') (codecs remote)))
           = map preferredPayloadType (fst (codecs_loop (codecs local) (codecs remote)))
       \<and> ((getLocalCapabilities local' remote = None) = (getLocalCapabilities local remote = None))
       \<and> (\<forall>res res'. getLocalCapabilities local remote = Some res
             \<and> getLocalCapabilities local' remote = Some res' \<longrightarrow>
             map preferredPayloadType (codecs res') = map preferredPayloadType (codecs res))"
proof -
  let ?L = "codecs local" and ?L' = "codecs local'" and ?R = "codecs remote"
  have same: "\<And>r. (findLocalCodec ?L' r = None) = (findLocalCodec ?L r = None)"
    using assms by (rule findLocalCodec_perm)
  have filt: "filter (\<lambda>r. toLowerCase (name r) \<noteq> ''rtx'' \<and> findLocalCodec ?L' r \<noteq> None) ?R
           = filter (\<lambda>r. toLowerCase (name r) \<noteq> ''rtx'' \<and> findLocalCodec ?L r \<noteq> None) ?R"
    by (simp only: same)
  have pt: "\<And>L. map preferredPayloadType (fst (codecs_loop L ?R))
              = map preferredPayloadType
                  (filter (\<lambda>r. toLowerCase (name r) \<noteq> ''rtx'' \<and> findLocalCodec L r \<noteq> None) ?R)"
    by (simp add: codecs_loop_def fst_foldl_codec_step negotiated_codec_def comp_def)
  have prim: "map preferredPayloadType (fst (codecs_loop ?L' ?R))
           = map preferredPayloadType (fst (codecs_loop ?L ?R))"
    by (simp only: pt filt)
  have rtx: "snd (codecs_loop ?L' ?R) = snd (codecs_loop ?L ?R)"
    by (simp add: codecs_loop_def snd_foldl_codec_step)
  have ret: "(getLocalCapabilities local' remote = None) = (getLocalCapabilities local remote = None)"
    by (simp only: getLocalCapabilities_None rtx rtx_loop_None_cong [OF prim])
  have res: "map preferredPayloadType (codecs res') = map preferredPayloadType (codecs res)"
    if "getLocalCapabilities local remote = Some res" "getLocalCapabilities local' remote = Some res'"
    for res res'
    using rtx_loop_Some_cong [OF prim getLocalCapabilities_Some [OF that(1)]]
      getLocalCapabilities_Some [OF that(2)]
    by (simp only: rtx)
  from filt prim ret res show ?thesis by blast
qed

theorem local_order_independent_witness:
  "map preferredPayloadType (fst (codecs_loop [local_opus, local_vp8] (codecs remote_mixed)))
     = map preferredPayloadType (fst (codecs_loop [local_vp8, local_opus] (codecs remote_mixed)))
   \<and> getLocalCapabilities (local_caps [local_vp8, local_opus]) remote_mixed \<noteq> None
   \<and> getLocalCapabilities (local_caps [local_opus, local_vp8]) remote_mixed \<noteq> None"
proof -
  have "mset (codecs (local_caps [local_opus, local_vp8])) = mset (codecs (local_caps [local_vp8, local_opus]))"
    by (simp add: local_caps_def)
  from local_order_independent [OF this, of remote_mixed]
  show ?thesis by (simp add: negotiation_defs remote_mixed_def)
qed

text \<open>
  Claim C2, as the code has it. For every matched remote codec, the feedback list of the
  negotiated codec is the remote feedback list restricted to the entries that the
  matching local codec declares too. So a local entry is kept if and only if a remote
  entry with the same type and parameter exists; the kept entries appear in the remote
  declaration order, once for every remote occurrence.
\<close>

theorem negotiated_feedback:
  "list_all2
     (\<lambda>c r. \<exists>l. findLocalCodec (codecs local) r = Some l
        \<and> rtcpFeedback c = filter (\<lambda>fb. fb \<in> set (rtcpFeedback l)) (rtcpFeedback r)
        \<and> (\<forall>fb. fb \<in> set (rtcpFeedback c) \<longleftrightarrow>
              fb \<in> set (rtcpFeedback l)
              \<and> (\<exists>rf\<in>set (rtcpFeedback r). fbtype rf = fbtype fb \<and> parameter rf = parameter fb)))
     (fst (codecs_loop (codecs local) (codecs remote)))
     (filter (\<lambda>r. toLowerCase (name r) \<noteq> ''rtx'' \<and>
                (\<exists>l\<in>set (codecs local). toLowerCase (name l) = toLowerCase (name r)
                    \<and> kind l = kind r \<and> clockRate l = clockRate r))
        (codecs remote))"
  unfolding primary_codecs
proof (rule list_all2_map_filter)
  fix r :: codec_capability
  assume "toLowerCase (name r) \<noteq> ''rtx'' \<and>
                (\<exists>l\<in>set (codecs local). toLowerCase (name l) = toLowerCase (name r)
                    \<and> kind l = kind r \<and> clockRate l = clockRate r)"
  then obtain l where "findLocalCodec (codecs local) r = Some l"
    using findLocalCodec_None [of "codecs local" r] by blast
  then show "\<exists>l. findLocalCodec (codecs local) r = Some l
        \<and> rtcpFeedback (negotiated_codec (the (findLocalCodec (codecs local) r)) r)
            = filter (\<lambda>fb. fb \<in> set (rtcpFeedback l)) (rtcpFeedback r)
        \<and> (\<forall>fb. fb \<in> set (rtcpFeedback (negotiated_codec (the (findLocalCodec (codecs local) r)) r)) \<longleftrightarrow>
              fb \<in> set (rtcpFeedback l)
              \<and> (\<exists>rf\<in>set (rtcpFeedback r). fbtype rf = fbtype fb \<and> parameter rf = parameter fb))"
    by (auto simp: negotiated_codec_def foldl_feedback_step feedback_mem_iff)
qed

theorem negotiated_feedback_witness:
  "\<exists>c. fst (codecs_loop [local_vp8] (codecs remote_feedback)) = [c]
        \<and> rtcpFeedback c = [ccm_fir, nack, ccm_fir]"
  using negotiated_feedback [of "local_caps [local_vp8]" remote_feedback]
  by (simp add: local_caps_def remote_feedback_def remote_caps_def remote_codec_def lower_examples
        local_vp8_def findLocalCodec_def codec_matches_def or_one_def list_all2_Cons2) blast

text \<open>
  Claim C2 as stated puts the kept entries in local declaration order. The local codec
  declares \<open>nack\<close> before \<open>ccm fir\<close>; with a remote codec that declares
  \<open>ccm fir\<close>, \<open>nack\<close>, \<open>ccm fir\<close> the negotiated codec has them in the remote order,
  \<open>ccm fir\<close> twice.
\<close>

theorem feedback_local_order_counterexample:
  "getLocalCapabilities (local_caps [local_vp8]) remote_feedback =
     Some \<lparr>codecs =
       [\<lparr>clockRate = 90000, kind = ''video'', mimeType = ''video/VP8'', name = ''VP8'',
         numChannels = Some 1, parameters = [], preferredPayloadType = 96,
         rtcpFeedback = [ccm_fir, nack, ccm_fir]\<rparr>],
       fecMechanisms = [], headerExtensions = []\<rparr>
   \<and> rtcpFeedback local_vp8 = [nack, ccm_fir]
   \<and> nack \<noteq> ccm_fir"
  by (simp add: negotiation_defs remote_feedback_def)

subsection \<open>The loop that synthesizes the RTX entries: the entry of an entry\<close>

text \<open>
  When the entry at hand and all entries after it carry a payload type that the map
  sends to itself, every entry the loop appends is of that kind again, and the loop
  never ends.
\<close>

lemma rtx_loop_self_reference:
  assumes self: "Map_get m (Some (JNum p)) = Some p"
    and "i < length cs" and "\<forall>c\<in>set (drop i cs). preferredPayloadType c = p"
  shows "rtx_loop m i cs = None"
proof (rule ccontr)
  assume "rtx_loop m i cs \<noteq> None"
  then obtain res where res: "rtx_loop m i cs = Some res" by blast
  have "Map_get m (Some (JNum p)) = Some p \<and> i < length cs
          \<and> (\<forall>c\<in>set (drop i cs). preferredPayloadType c = p) \<longrightarrow> False"
  proof (rule rtx_loop.raw_induct
      [where P = "\<lambda>m i cs res. Map_get m (Some (JNum p)) = Some p \<and> i < length cs
          \<and> (\<forall>c\<in>set (drop i cs). preferredPayloadType c = p) \<longrightarrow> False", OF _ res])
    fix loop and m :: "(jsval option \<times> int) list" and i cs res
    assume IH: "\<And>m i cs y. loop m i cs = Some y \<Longrightarrow>
                   Map_get m (Some (JNum p)) = Some p \<and> i < length cs
                   \<and> (\<forall>c\<in>set (drop i cs). preferredPayloadType c = p) \<longrightarrow> False"
      and body: "(if i < length cs
                then case Map_get m (Some (JNum (preferredPayloadType (cs ! i)))) of
                       None \<Rightarrow> loop m (i + 1) cs
                     | Some rtxPayloadType \<Rightarrow>
                         loop m (i + 1) (cs @ [rtx_codec (cs ! i) rtxPayloadType])
                else Some cs) = Some res"
    show "Map_get m (Some (JNum p)) = Some p \<and> i < length cs
          \<and> (\<forall>c\<in>set (drop i cs). preferredPayloadType c = p) \<longrightarrow> False"
    proof
      assume inv: "Map_get m (Some (JNum p)) = Some p \<and> i < length cs
          \<and> (\<forall>c\<in>set (drop i cs). preferredPayloadType c = p)"
      then have "cs ! i \<in> set (drop i cs)"
        by (metis Cons_nth_drop_Suc list.set_intros(1))
      with inv have "preferredPayloadType (cs ! i) = p" by blast
      with inv body have "loop m (i + 1) (cs @ [rtx_codec (cs ! i) p]) = Some res" by simp
      moreover have "set (drop (i + 1) cs) \<subseteq> set (drop i cs)"
        by (metis Suc_eq_plus1 le_add1 set_drop_subset_set_drop)
      with inv have "Map_get m (Some (JNum p)) = Some p \<and> i + 1 < length (cs @ [rtx_codec (cs ! i) p])
          \<and> (\<forall>c\<in>set (drop (i + 1) (cs @ [rtx_codec (cs ! i) p])). preferredPayloadType c = p)"
        by (auto simp: rtx_codec_def)
      ultimately show False using IH by blast
    qed
  qed
  with assms show False by blast
qed

lemma self_reference_never_returns:
  "getLocalCapabilities (local_caps [local_vp8]) remote_self = None"
proof -
  let ?c = "\<lparr>clockRate = 90000, kind = ''video'', mimeType = ''video/VP8'', name = ''VP8'',
         numChannels = Some 1, parameters = [], preferredPayloadType = 96, rtcpFeedback = []\<rparr>"
  have st: "codecs_loop (codecs (local_caps [local_vp8])) (codecs remote_self) =
              ([?c], [(Some (JNum 96), 96)])"
    by (simp add: codecs_loop_def codec_step_def findLocalCodec_def codec_matches_def
          negotiated_codec_def or_one_def params_loop_def lower_examples local_caps_def
          remote_caps_def remote_codec_def local_vp8_def remote_self_def)
  have "rtx_loop [(Some (JNum 96), 96)] 0 [?c] = None"
    by (rule rtx_loop_self_reference [where p = 96]) (simp_all add: Map_get_def)
  then show ?thesis by (simp add: getLocalCapabilities_def Let_def st)
qed

text \<open>
  Claim C1 asks that the \<open>apt\<close> of every synthesized entry be the payload type of a
  negotiated primary codec. The remote record below has VP8 with payload type 96, an
  \<open>rtx\<close> codec 97 with \<open>apt\<close> 96 and an \<open>rtx\<close> codec 98 with \<open>apt\<close> 97; all payload
  types are distinct. The loop that appends the synthesized entries walks the array it
  appends to: after the entry for VP8 (payload type 97, \<open>apt\<close> 96) it visits that entry
  and appends one more, with payload type 98 and \<open>apt\<close> 97, the payload type of a
  synthesized entry and of no negotiated primary codec.
\<close>

theorem rtx_of_rtx_synthesized:
  "getLocalCapabilities (local_caps [local_vp8]) remote_chain =
     Some \<lparr>codecs =
       [\<lparr>clockRate = 90000, kind = ''video'', mimeType = ''video/VP8'', name = ''VP8'',
         numChannels = Some 1, parameters = [], preferredPayloadType = 96, rtcpFeedback = []\<rparr>,
        \<lparr>clockRate = 90000, kind = ''video'', mimeType = ''video/rtx'', name = ''rtx'',
         numChannels = None, parameters = [(''apt'', JNum 96)], preferredPayloadType = 97,
         rtcpFeedback = []\<rparr>,
        \<lparr>clockRate = 90000, kind = ''video'', mimeType = ''video/rtx'', name = ''rtx'',
         numChannels = None, parameters = [(''apt'', JNum 97)], preferredPayloadType = 98,
         rtcpFeedback = []\<rparr>],
       fecMechanisms = [], headerExtensions = []\<rparr>"
  by (simp add: negotiation_defs remote_chain_def)

section \<open>Properties of the RTP capability extraction\<close>

subsection \<open>The codec registry\<close>

text \<open>
  What the \<open>fmtp\<close> and \<open>rtcp-fb\<close> lines change in a codec object are its parameters
  and its feedback list. With both reset, the registry is the fold of \<open>Map_set\<close> over
  the codec entries of the audio and video sections.
\<close>

lemma codec_of_rtp_reset:
  "(codec_of_rtp k r)\<lparr>parameters := [], rtcpFeedback := []\<rparr> = codec_of_rtp k r"
  by (simp add: codec_of_rtp_def)

lemma reset_foldl_add_rtp:
  "map (apsnd (\<lambda>c. c\<lparr>parameters := [], rtcpFeedback := []\<rparr>)) (foldl (add_rtp k) cm rs) =
     foldl (\<lambda>m r. Map_set (rtp_payload r) (codec_of_rtp k r) m)
       (map (apsnd (\<lambda>c. c\<lparr>parameters := [], rtcpFeedback := []\<rparr>)) cm) rs"
proof (induction rs arbitrary: cm)
  case Nil
  then show ?case by simp
next
  case (Cons r rs)
  have "map (apsnd (\<lambda>c. c\<lparr>parameters := [], rtcpFeedback := []\<rparr>)) (add_rtp k cm r) =
          Map_set (rtp_payload r) (codec_of_rtp k r)
            (map (apsnd (\<lambda>c. c\<lparr>parameters := [], rtcpFeedback := []\<rparr>)) cm)"
    unfolding add_rtp_def Let_def Map_set_map codec_of_rtp_reset
    by (simp add: codec_of_rtp_def)
  then show ?case by (simp add: Cons.IH)
qed

lemma reset_add_fmtp:
  "map (apsnd (\<lambda>c. c\<lparr>parameters := [], rtcpFeedback := []\<rparr>)) (add_fmtp parse cm f) =
     map (apsnd (\<lambda>c. c\<lparr>parameters := [], rtcpFeedback := []\<rparr>)) cm"
proof (cases "map_of cm (fmtp_payload f)")
  case None
  then show ?thesis by (simp add: add_fmtp_def Map_get_def)
next
  case (Some c)
  have "map_of (map (apsnd (\<lambda>c. c\<lparr>parameters := [], rtcpFeedback := []\<rparr>)) cm) (fmtp_payload f)
          = Some (c\<lparr>parameters := [], rtcpFeedback := []\<rparr>)"
    by (simp add: map_of_map_apsnd Some)
  then have "Map_set (fmtp_payload f) (c\<lparr>parameters := [], rtcpFeedback := []\<rparr>)
               (map (apsnd (\<lambda>c. c\<lparr>parameters := [], rtcpFeedback := []\<rparr>)) cm)
             = map (apsnd (\<lambda>c. c\<lparr>parameters := [], rtcpFeedback := []\<rparr>)) cm"
    by (rule Map_set_same)
  with Some show ?thesis by (simp add: add_fmtp_def Map_get_def Map_set_map)
qed

lemma reset_add_rtcpFb:
  "map (apsnd (\<lambda>c. c\<lparr>parameters := [], rtcpFeedback := []\<rparr>)) (add_rtcpFb cm fb) =
     map (apsnd (\<lambda>c. c\<lparr>parameters := [], rtcpFeedback := []\<rparr>)) cm"
proof (cases "map_of cm (fb_payload fb)")
  case None
  then show ?thesis by (simp add: add_rtcpFb_def Map_get_def)
next
  case (Some c)
  have "map_of (map (apsnd (\<lambda>c. c\<lparr>parameters := [], rtcpFeedback := []\<rparr>)) cm) (fb_payload fb)
          = Some (c\<lparr>parameters := [], rtcpFeedback := []\<rparr>)"
    by (simp add: map_of_map_apsnd Some)
  then have "Map_set (fb_payload fb) (c\<lparr>parameters := [], rtcpFeedback := []\<rparr>)
               (map (apsnd (\<lambda>c. c\<lparr>parameters := [], rtcpFeedback := []\<rparr>)) cm)
             = map (apsnd (\<lambda>c. c\<lparr>parameters := [], rtcpFeedback := []\<rparr>)) cm"
    by (rule Map_set_same)
  with Some show ?thesis by (simp add: add_rtcpFb_def Map_get_def Map_set_map)
qed

lemma reset_foldl_add_fmtp:
  "map (apsnd (\<lambda>c. c\<lparr>parameters := [], rtcpFeedback := []\<rparr>)) (foldl (add_fmtp parse) cm fs) =
     map (apsnd (\<lambda>c. c\<lparr>parameters := [], rtcpFeedback := []\<rparr>)) cm"
  by (induction fs arbitrary: cm) (simp_all add: reset_add_fmtp)

lemma reset_foldl_add_rtcpFb:
  "map (apsnd (\<lambda>c. c\<lparr>parameters := [], rtcpFeedback := []\<rparr>)) (foldl add_rtcpFb cm fbs) =
     map (apsnd (\<lambda>c. c\<lparr>parameters := [], rtcpFeedback := []\<rparr>)) cm"
  by (induction fbs arbitrary: cm) (simp_all add: reset_add_rtcpFb)

lemma reset_capabilities_step:
  "map (apsnd (\<lambda>c. c\<lparr>parameters := [], rtcpFeedback := []\<rparr>)) (fst (capabilities_step parse st m)) =
     foldl (\<lambda>cm e. Map_set (rtp_payload (snd e)) (codec_of_rtp (fst e) (snd e)) cm)
       (map (apsnd (\<lambda>c. c\<lparr>parameters := [], rtcpFeedback := []\<rparr>)) (fst st))
       (if is_av (m_type m) then map (Pair (m_type m)) (m_rtp m) else [])"
  by (simp add: capabilities_step_def Let_def reset_foldl_add_fmtp reset_foldl_add_rtcpFb
        reset_foldl_add_rtp foldl_map)

lemma reset_foldl_capabilities_step:
  "map (apsnd (\<lambda>c. c\<lparr>parameters := [], rtcpFeedback := []\<rparr>))
       (fst (foldl (capabilities_step parse) st ms)) =
     foldl (\<lambda>cm e. Map_set (rtp_payload (snd e)) (codec_of_rtp (fst e) (snd e)) cm)
       (map (apsnd (\<lambda>c. c\<lparr>parameters := [], rtcpFeedback := []\<rparr>)) (fst st))
       (concat (map (\<lambda>m. map (Pair (m_type m)) (m_rtp m)) (filter (\<lambda>m. is_av (m_type m)) ms)))"
proof (induction ms arbitrary: st)
  case Nil
  then show ?case by simp
next
  case (Cons m ms)
  show ?case
    by (simp add: Cons.IH reset_capabilities_step)
qed

lemma registry_reset:
  "map (apsnd (\<lambda>c. c\<lparr>parameters := [], rtcpFeedback := []\<rparr>)) (fst (capabilities_loop parse ms)) =
     foldl (\<lambda>cm e. Map_set (rtp_payload (snd e)) (codec_of_rtp (fst e) (snd e)) cm) []
       (concat (map (\<lambda>m. map (Pair (m_type m)) (m_rtp m)) (filter (\<lambda>m. is_av (m_type m)) ms)))"
  by (simp add: capabilities_loop_def reset_foldl_capabilities_step)

lemma keyed_foldl_Map_set:
  "\<forall>e\<in>set m0. P (fst e) (snd e) \<Longrightarrow> \<forall>e\<in>set es. P (key e) (val e) \<Longrightarrow>
   \<forall>e\<in>set (foldl (\<lambda>m e. Map_set (key e) (val e) m) m0 es). P (fst e) (snd e)"
proof (induction es rule: rev_induct)
  case Nil
  then show ?case by simp
next
  case (snoc x xs)
  then have "\<forall>e\<in>set (foldl (\<lambda>m e. Map_set (key e) (val e) m) m0 xs). P (fst e) (snd e)"
    and "P (key x) (val x)" by simp_all
  then show ?case using set_Map_set [of "key x" "val x" "foldl (\<lambda>m e. Map_set (key e) (val e) m) m0 xs"]
    by auto
qed

lemma registry_keyed:
  "e \<in> set (fst (capabilities_loop parse ms)) \<Longrightarrow> preferredPayloadType (snd e) = fst e"
proof -
  assume a: "e \<in> set (fst (capabilities_loop parse ms))"
  let ?G = "foldl (\<lambda>cm e. Map_set (rtp_payload (snd e)) (codec_of_rtp (fst e) (snd e)) cm) []
       (concat (map (\<lambda>m. map (Pair (m_type m)) (m_rtp m)) (filter (\<lambda>m. is_av (m_type m)) ms)))"
  have "\<forall>e\<in>set ?G. preferredPayloadType (snd e) = fst e"
    by (rule keyed_foldl_Map_set [where P = "\<lambda>k c. preferredPayloadType c = k"])
       (simp_all add: codec_of_rtp_def)
  moreover from a have "apsnd (\<lambda>c. c\<lparr>parameters := [], rtcpFeedback := []\<rparr>) e \<in> set ?G"
    unfolding registry_reset [of parse ms, symmetric] by simp
  ultimately show ?thesis by (cases e) auto
qed

lemma registry_keys:
  "map fst (fst (capabilities_loop parse ms)) =
     rev (remdups (rev (map (\<lambda>e. rtp_payload (snd e))
       (concat (map (\<lambda>m. map (Pair (m_type m)) (m_rtp m)) (filter (\<lambda>m. is_av (m_type m)) ms))))))"
proof -
  have "map fst (fst (capabilities_loop parse ms)) =
          map fst (map (apsnd (\<lambda>c. c\<lparr>parameters := [], rtcpFeedback := []\<rparr>))
            (fst (capabilities_loop parse ms)))"
    by (simp add: comp_def)
  then show ?thesis
    unfolding registry_reset keys_foldl_Map_set by simp
qed

lemma extracted_payload_types:
  "map preferredPayloadType (codecs (extractCapabilities parse sdpObject)) =
     rev (remdups (rev (map (\<lambda>e. rtp_payload (snd e))
       (concat (map (\<lambda>m. map (Pair (m_type m)) (m_rtp m))
          (filter (\<lambda>m. is_av (m_type m)) (media sdpObject)))))))"
proof -
  have "map preferredPayloadType (codecs (extractCapabilities parse sdpObject)) =
          map (\<lambda>e. preferredPayloadType (snd e)) (fst (capabilities_loop parse (media sdpObject)))"
    by (simp add: extractCapabilities_def Let_def Map_values_def comp_def)
  also have "\<dots> = map fst (fst (capabilities_loop parse (media sdpObject)))"
    by (rule map_cong) (simp_all add: registry_keyed)
  finally show ?thesis by (simp only: registry_keys)
qed

lemma registry_last:
  assumes "concat (map (\<lambda>m. map (Pair (m_type m)) (m_rtp m)) (filter (\<lambda>m. is_av (m_type m)) ms))
             = pre @ (k, r) # post"
    and "\<forall>e\<in>set post. rtp_payload (snd e) \<noteq> rtp_payload r"
  shows "\<exists>c. map_of (fst (capabilities_loop parse ms)) (rtp_payload r) = Some c
           \<and> c\<lparr>parameters := [], rtcpFeedback := []\<rparr> = codec_of_rtp k r"
proof -
  have "map_of (foldl (\<lambda>cm e. Map_set (rtp_payload (snd e)) (codec_of_rtp (fst e) (snd e)) cm) []
          (concat (map (\<lambda>m. map (Pair (m_type m)) (m_rtp m)) (filter (\<lambda>m. is_av (m_type m)) ms))))
          (rtp_payload (snd (k, r))) = Some (codec_of_rtp (fst (k, r)) (snd (k, r)))"
    using assms
    by (intro map_of_foldl_Map_set_last
          [where key = "\<lambda>e. rtp_payload (snd e)" and val = "\<lambda>e. codec_of_rtp (fst e) (snd e)"])
       simp_all
  then show ?thesis
    unfolding registry_reset [of parse ms, symmetric] map_of_map_apsnd by auto
qed

lemma foldl_add_rtp:
  "foldl (add_rtp k) cm rs = foldl (\<lambda>m r. Map_set (rtp_payload r) (codec_of_rtp k r) m) cm rs"
  by (rule arg_cong [where f = "\<lambda>f. foldl f cm rs"])
     (simp add: fun_eq_iff add_rtp_def codec_of_rtp_def)

lemma map_of_foldl_add_rtp_other:
  "p \<notin> rtp_payload ` set rs \<Longrightarrow> map_of (foldl (add_rtp k) cm rs) p = map_of cm p"
  unfolding foldl_add_rtp by (rule map_of_foldl_Map_set_other) auto

lemma map_of_add_fmtp:
  "map_of (add_fmtp parse cm f) q =
     (if q = fmtp_payload f
      then map_option (\<lambda>c. c\<lparr>parameters := parse (fmtp_config f)\<rparr>) (map_of cm q)
      else map_of cm q)"
  by (cases "map_of cm (fmtp_payload f)") (simp_all add: add_fmtp_def Map_get_def map_of_Map_set)

lemma map_of_foldl_add_fmtp_other:
  "\<forall>f\<in>set fs. fmtp_payload f \<noteq> p \<Longrightarrow> map_of (foldl (add_fmtp parse) cm fs) p = map_of cm p"
  by (induction fs rule: rev_induct) (simp_all add: map_of_add_fmtp)

lemma map_of_foldl_add_fmtp_params:
  "map_option (\<lambda>c. c\<lparr>parameters := X\<rparr>) (map_of (foldl (add_fmtp parse) cm fs) p) =
     map_option (\<lambda>c. c\<lparr>parameters := X\<rparr>) (map_of cm p)"
  by (induction fs rule: rev_induct) (auto simp: map_of_add_fmtp option.map_comp comp_def)

lemma map_of_foldl_add_fmtp_last:
  assumes "fs = fs1 @ f # fs2" and "fmtp_payload f = p" and "\<forall>x\<in>set fs2. fmtp_payload x \<noteq> p"
  shows "map_of (foldl (add_fmtp parse) cm fs) p =
           map_option (\<lambda>c. c\<lparr>parameters := parse (fmtp_config f)\<rparr>) (map_of cm p)"
proof -
  have "map_of (foldl (add_fmtp parse) cm fs) p =
          map_of (add_fmtp parse (foldl (add_fmtp parse) cm fs1) f) p"
    using assms(1,3) by (simp add: map_of_foldl_add_fmtp_other)
  also have "\<dots> = map_option (\<lambda>c. c\<lparr>parameters := parse (fmtp_config f)\<rparr>)
                      (map_of (foldl (add_fmtp parse) cm fs1) p)"
    using assms(2) by (simp add: map_of_add_fmtp)
  also have "\<dots> = map_option (\<lambda>c. c\<lparr>parameters := parse (fmtp_config f)\<rparr>) (map_of cm p)"
    by (rule map_of_foldl_add_fmtp_params)
  finally show ?thesis .
qed

lemma map_of_add_rtcpFb:
  "map_of (add_rtcpFb cm fb) q =
     (if q = fb_payload fb
      then map_option (\<lambda>c. c\<lparr>rtcpFeedback := rtcpFeedback c @ [feedback_of fb]\<rparr>) (map_of cm q)
      else map_of cm q)"
  by (cases "map_of cm (fb_payload fb)") (simp_all add: add_rtcpFb_def Map_get_def map_of_Map_set)

lemma map_of_foldl_add_rtcpFb:
  "map_of (foldl add_rtcpFb cm fbs) p =
     map_option (\<lambda>c. c\<lparr>rtcpFeedback := rtcpFeedback c
                          @ map feedback_of (filter (\<lambda>fb. fb_payload fb = p) fbs)\<rparr>)
       (map_of cm p)"
proof (induction fbs rule: rev_induct)
  case Nil
  show ?case by (cases "map_of cm p") simp_all
next
  case (snoc fb fbs)
  then show ?case
    by (cases "map_of cm p") (auto simp: map_of_add_rtcpFb)
qed

lemma registry_distinct: "distinct (map fst (fst (capabilities_loop parse ms)))"
  by (simp only: registry_keys distinct_rev distinct_remdups)

lemma codecs_registry:
  "c \<in> set (codecs (extractCapabilities parse sdpObject)) \<longleftrightarrow>
     map_of (fst (capabilities_loop parse (media sdpObject))) (preferredPayloadType c) = Some c"
proof
  assume "c \<in> set (codecs (extractCapabilities parse sdpObject))"
  then obtain e where e: "e \<in> set (fst (capabilities_loop parse (media sdpObject)))" "snd e = c"
    by (auto simp: extractCapabilities_def Let_def Map_values_def)
  with registry_keyed [OF e(1)] have "(preferredPayloadType c, c) \<in> set (fst (capabilities_loop parse (media sdpObject)))"
    by (cases e) auto
  then show "map_of (fst (capabilities_loop parse (media sdpObject))) (preferredPayloadType c) = Some c"
    by (simp add: registry_distinct)
next
  assume "map_of (fst (capabilities_loop parse (media sdpObject))) (preferredPayloadType c) = Some c"
  then show "c \<in> set (codecs (extractCapabilities parse sdpObject))"
    by (auto simp: extractCapabilities_def Let_def Map_values_def dest!: map_of_SomeD intro: rev_image_eqI)
qed

lemma remdups_append_filter:
  "remdups (as @ bs) = filter (\<lambda>x. x \<notin> set bs) (remdups as) @ remdups bs"
  by (induction as) auto

lemma first_occurrences_append:
  "\<exists>new. rev (remdups (rev (xs @ ys))) = rev (remdups (rev xs)) @ new"
  by (simp add: remdups_append_filter)

lemma capabilities_loop_snoc:
  "capabilities_loop parse (ms @ [m]) = capabilities_step parse (capabilities_loop parse ms) m"
  by (simp add: capabilities_loop_def)

lemma registry_after_section:
  assumes "is_av (m_type m)" and "p \<notin> rtp_payload ` set (m_rtp m)"
    and "map_of (fst (capabilities_loop parse ms)) p = Some c0"
  shows "(\<forall>f\<in>set (or_empty (m_fmtp m)). fmtp_payload f \<noteq> p) \<longrightarrow>
           map_of (fst (capabilities_loop parse (ms @ [m]))) p =
             Some (c0\<lparr>rtcpFeedback := rtcpFeedback c0
                        @ map feedback_of (filter (\<lambda>fb. fb_payload fb = p) (or_empty (m_rtcpFb m)))\<rparr>)"
    and "or_empty (m_fmtp m) = fs1 @ f # fs2 \<and> fmtp_payload f = p
           \<and> (\<forall>x\<in>set fs2. fmtp_payload x \<noteq> p) \<longrightarrow>
           map_of (fst (capabilities_loop parse (ms @ [m]))) p =
             Some (c0\<lparr>parameters := parse (fmtp_config f),
                      rtcpFeedback := rtcpFeedback c0
                        @ map feedback_of (filter (\<lambda>fb. fb_payload fb = p) (or_empty (m_rtcpFb m)))\<rparr>)"
proof -
  let ?cm = "fst (capabilities_loop parse ms)"
  let ?cm1 = "foldl (add_rtp (m_type m)) ?cm (m_rtp m)"
  let ?cm2 = "foldl (add_fmtp parse) ?cm1 (or_empty (m_fmtp m))"
  have after: "fst (capabilities_loop parse (ms @ [m])) = foldl add_rtcpFb ?cm2 (or_empty (m_rtcpFb m))"
    using assms(1) by (simp add: capabilities_loop_snoc capabilities_step_def Let_def)
  have one: "map_of ?cm1 p = Some c0"
    using assms(2,3) by (simp add: map_of_foldl_add_rtp_other)
  show "(\<forall>f\<in>set (or_empty (m_fmtp m)). fmtp_payload f \<noteq> p) \<longrightarrow>
           map_of (fst (capabilities_loop parse (ms @ [m]))) p =
             Some (c0\<lparr>rtcpFeedback := rtcpFeedback c0
                        @ map feedback_of (filter (\<lambda>fb. fb_payload fb = p) (or_empty (m_rtcpFb m)))\<rparr>)"
  proof
    assume "\<forall>f\<in>set (or_empty (m_fmtp m)). fmtp_payload f \<noteq> p"
    then have "map_of ?cm2 p = Some c0"
      by (simp add: map_of_foldl_add_fmtp_other one)
    then show "map_of (fst (capabilities_loop parse (ms @ [m]))) p =
             Some (c0\<lparr>rtcpFeedback := rtcpFeedback c0
                        @ map feedback_of (filter (\<lambda>fb. fb_payload fb = p) (or_empty (m_rtcpFb m)))\<rparr>)"
      unfolding after by (simp add: map_of_foldl_add_rtcpFb)
  qed
  show "or_empty (m_fmtp m) = fs1 @ f # fs2 \<and> fmtp_payload f = p
           \<and> (\<forall>x\<in>set fs2. fmtp_payload x \<noteq> p) \<longrightarrow>
           map_of (fst (capabilities_loop parse (ms @ [m]))) p =
             Some (c0\<lparr>parameters := parse (fmtp_config f),
                      rtcpFeedback := rtcpFeedback c0
                        @ map feedback_of (filter (\<lambda>fb. fb_payload fb = p) (or_empty (m_rtcpFb m)))\<rparr>)"
  proof
    assume a: "or_empty (m_fmtp m) = fs1 @ f # fs2 \<and> fmtp_payload f = p
           \<and> (\<forall>x\<in>set fs2. fmtp_payload x \<noteq> p)"
    then have "map_of ?cm2 p = map_option (\<lambda>c. c\<lparr>parameters := parse (fmtp_config f)\<rparr>) (map_of ?cm1 p)"
      by (intro map_of_foldl_add_fmtp_last [of _ fs1 f fs2]) simp_all
    then have "map_of ?cm2 p = Some (c0\<lparr>parameters := parse (fmtp_config f)\<rparr>)"
      by (simp add: one)
    then show "map_of (fst (capabilities_loop parse (ms @ [m]))) p =
             Some (c0\<lparr>parameters := parse (fmtp_config f),
                      rtcpFeedback := rtcpFeedback c0
                        @ map feedback_of (filter (\<lambda>fb. fb_payload fb = p) (or_empty (m_rtcpFb m)))\<rparr>)"
      unfolding after by (simp add: map_of_foldl_add_rtcpFb)
  qed
qed

lemma map_of_foldl_add_rtp_last:
  assumes "rs = rs1 @ r # rs2" and "\<forall>x\<in>set rs2. rtp_payload x \<noteq> rtp_payload r"
  shows "map_of (foldl (add_rtp k) cm rs) (rtp_payload r) = Some (codec_of_rtp k r)"
  unfolding foldl_add_rtp
  using assms by (rule map_of_foldl_Map_set_last [where key = rtp_payload and val = "codec_of_rtp k"])

lemma registry_declared_in_section:
  assumes "is_av (m_type m)" and "m_rtp m = rs1 @ r # rs2"
    and "\<forall>x\<in>set rs2. rtp_payload x \<noteq> rtp_payload r"
  shows "\<exists>c. map_of (fst (capabilities_loop parse (ms @ [m]))) (rtp_payload r) = Some c
           \<and> c\<lparr>parameters := []\<rparr> =
               (codec_of_rtp (m_type m) r)
                 \<lparr>rtcpFeedback := map feedback_of
                    (filter (\<lambda>fb. fb_payload fb = rtp_payload r) (or_empty (m_rtcpFb m)))\<rparr>
           \<and> ((\<forall>f\<in>set (or_empty (m_fmtp m)). fmtp_payload f \<noteq> rtp_payload r) \<longrightarrow> parameters c = [])
           \<and> (\<forall>fs1 f fs2. or_empty (m_fmtp m) = fs1 @ f # fs2 \<and> fmtp_payload f = rtp_payload r
                  \<and> (\<forall>x\<in>set fs2. fmtp_payload x \<noteq> rtp_payload r) \<longrightarrow>
                  parameters c = parse (fmtp_config f))"
proof -
  let ?p = "rtp_payload r"
  let ?cm = "fst (capabilities_loop parse ms)"
  let ?cm1 = "foldl (add_rtp (m_type m)) ?cm (m_rtp m)"
  let ?cm2 = "foldl (add_fmtp parse) ?cm1 (or_empty (m_fmtp m))"
  let ?c1 = "codec_of_rtp (m_type m) r"
  have after: "fst (capabilities_loop parse (ms @ [m])) = foldl add_rtcpFb ?cm2 (or_empty (m_rtcpFb m))"
    using assms(1) by (simp add: capabilities_loop_snoc capabilities_step_def Let_def)
  have one: "map_of ?cm1 ?p = Some ?c1"
    using assms(2,3) by (rule map_of_foldl_add_rtp_last)
  have "map_option (\<lambda>c. c\<lparr>parameters := []\<rparr>) (map_of ?cm2 ?p) =
          map_option (\<lambda>c. c\<lparr>parameters := []\<rparr>) (map_of ?cm1 ?p)"
    by (rule map_of_foldl_add_fmtp_params)
  with one obtain c2 where c2: "map_of ?cm2 ?p = Some c2" "c2\<lparr>parameters := []\<rparr> = ?c1"
    by (auto simp: codec_of_rtp_def)
  have fb2: "rtcpFeedback c2 = []"
    using arg_cong [OF c2(2), of rtcpFeedback] by (simp add: codec_of_rtp_def)
  let ?c3 = "c2\<lparr>rtcpFeedback := rtcpFeedback c2
              @ map feedback_of (filter (\<lambda>fb. fb_payload fb = ?p) (or_empty (m_rtcpFb m)))\<rparr>"
  have three: "map_of (fst (capabilities_loop parse (ms @ [m]))) ?p = Some ?c3"
    unfolding after by (simp add: map_of_foldl_add_rtcpFb c2(1))
  have "?c3\<lparr>parameters := []\<rparr> =
          ?c1\<lparr>rtcpFeedback := map feedback_of
                    (filter (\<lambda>fb. fb_payload fb = ?p) (or_empty (m_rtcpFb m)))\<rparr>"
    using c2(2) fb2 by (cases c2) (simp add: codec_of_rtp_def)
  moreover have "parameters ?c3 = []" if "\<forall>f\<in>set (or_empty (m_fmtp m)). fmtp_payload f \<noteq> ?p"
  proof -
    from that have "map_of ?cm2 ?p = Some ?c1"
      by (simp add: map_of_foldl_add_fmtp_other one)
    with c2(1) have "c2 = ?c1" by simp
    then show ?thesis by (simp add: codec_of_rtp_def)
  qed
  moreover have "parameters ?c3 = parse (fmtp_config f)"
    if "or_empty (m_fmtp m) = fs1 @ f # fs2 \<and> fmtp_payload f = ?p
          \<and> (\<forall>x\<in>set fs2. fmtp_payload x \<noteq> ?p)" for fs1 f fs2
  proof -
    from that have "map_of ?cm2 ?p =
        map_option (\<lambda>c. c\<lparr>parameters := parse (fmtp_config f)\<rparr>) (map_of ?cm1 ?p)"
      by (intro map_of_foldl_add_fmtp_last [of _ fs1 f fs2]) simp_all
    with c2(1) one have "c2 = ?c1\<lparr>parameters := parse (fmtp_config f)\<rparr>" by simp
    then show ?thesis by simp
  qed
  ultimately show ?thesis using three by blast
qed

lemma codecs_registry_update:
  "map_of (fst (capabilities_loop parse (media sdpObject))) (preferredPayloadType c0) = Some c \<Longrightarrow>
   preferredPayloadType c = preferredPayloadType c0 \<Longrightarrow>
   c \<in> set (codecs (extractCapabilities parse sdpObject))"
  by (simp add: codecs_registry)

lemmas capabilities_defs =
  extractCapabilities_def capabilities_loop_def capabilities_step_def Let_def is_av_def
  or_empty_def add_rtp_def add_fmtp_def add_rtcpFb_def add_ext_def push_unique_def header_of_def
  feedback_of_def codec_of_rtp_def or_one_def Map_get_def Map_values_def example_parse_def
  doc_of_def audio_section_def video_section_def ext_section_def empty_section_def

lemma audio_codecs:
  "codecs (extractCapabilities example_parse (doc_of [audio_section])) =
     [\<lparr>clockRate = 48000, kind = ''audio'', mimeType = ''audio/opus'', name = ''opus'',
       numChannels = Some 2, parameters = [], preferredPayloadType = 111, rtcpFeedback = []\<rparr>,
      \<lparr>clockRate = 8000, kind = ''audio'', mimeType = ''audio/PCMU'', name = ''PCMU'',
       numChannels = Some 1, parameters = [], preferredPayloadType = 0, rtcpFeedback = []\<rparr>]"
  by (simp add: capabilities_defs)

lemma audio_video_codecs:
  "codecs (extractCapabilities example_parse (doc_of [audio_section, video_section])) =
     [\<lparr>clockRate = 90000, kind = ''video'', mimeType = ''video/H264'', name = ''H264'',
       numChannels = Some 1, parameters = [], preferredPayloadType = 111, rtcpFeedback = []\<rparr>,
      \<lparr>clockRate = 8000, kind = ''audio'', mimeType = ''audio/PCMU'', name = ''PCMU'',
       numChannels = Some 1, parameters = [(''config'', JStr ''x=1'')], preferredPayloadType = 0,
       rtcpFeedback = [\<lparr>parameter = '''', fbtype = ''nack''\<rparr>]\<rparr>,
      \<lparr>clockRate = 90000, kind = ''video'', mimeType = ''video/VP8'', name = ''VP8'',
       numChannels = Some 1, parameters = [(''config'', JStr ''y=2'')], preferredPayloadType = 96,
       rtcpFeedback = []\<rparr>]"
  by (simp add: capabilities_defs)

text \<open>
  Claim C5. The codecs that \<open>extractCapabilities\<close> returns have pairwise distinct
  payload types, and the last codec entry that carries a payload type wins: list the
  codec entries of the audio and video sections in document order, each with the kind
  of its section; for an entry with no later entry of the same payload type, the
  returned codec of that payload type has the kind, name, clock rate and channel count
  of that entry.
\<close>

theorem extracted_payload_types_distinct:
  "distinct (map preferredPayloadType (codecs (extractCapabilities parse sdpObject)))
   \<and> (\<forall>pre k r post.
         concat (map (\<lambda>m. map (Pair (m_type m)) (m_rtp m))
           (filter (\<lambda>m. is_av (m_type m)) (media sdpObject))) = pre @ (k, r) # post
         \<and> (\<forall>e\<in>set post. rtp_payload (snd e) \<noteq> rtp_payload r) \<longrightarrow>
         (\<exists>c\<in>set (codecs (extractCapabilities parse sdpObject)).
            preferredPayloadType c = rtp_payload r \<and> kind c = k \<and> name c = rtp_codec r
            \<and> clockRate c = rtp_rate r \<and> numChannels c = Some (or_one (rtp_encoding r))
            \<and> mimeType c = k @ ''/'' @ rtp_codec r))"
proof (intro conjI allI impI)
  show "distinct (map preferredPayloadType (codecs (extractCapabilities parse sdpObject)))"
    by (simp only: extracted_payload_types distinct_rev distinct_remdups)
next
  fix pre k r post
  assume a: "concat (map (\<lambda>m. map (Pair (m_type m)) (m_rtp m))
           (filter (\<lambda>m. is_av (m_type m)) (media sdpObject))) = pre @ (k, r) # post
         \<and> (\<forall>e\<in>set post. rtp_payload (snd e) \<noteq> rtp_payload r)"
  then obtain c where c: "map_of (fst (capabilities_loop parse (media sdpObject))) (rtp_payload r) = Some c"
    "c\<lparr>parameters := [], rtcpFeedback := []\<rparr> = codec_of_rtp k r"
    using registry_last [of "media sdpObject" pre k r post parse] by blast
  from c(1) have "c \<in> set (codecs (extractCapabilities parse sdpObject))"
    by (auto simp: extractCapabilities_def Let_def Map_values_def dest!: map_of_SomeD intro: rev_image_eqI)
  moreover have "preferredPayloadType c = rtp_payload r \<and> kind c = k \<and> name c = rtp_codec r
            \<and> clockRate c = rtp_rate r \<and> numChannels c = Some (or_one (rtp_encoding r))
            \<and> mimeType c = k @ ''/'' @ rtp_codec r"
    using arg_cong [OF c(2), of preferredPayloadType] arg_cong [OF c(2), of kind]
      arg_cong [OF c(2), of name] arg_cong [OF c(2), of clockRate]
      arg_cong [OF c(2), of numChannels] arg_cong [OF c(2), of mimeType]
    by (simp add: codec_of_rtp_def)
  ultimately show "\<exists>c\<in>set (codecs (extractCapabilities parse sdpObject)).
            preferredPayloadType c = rtp_payload r \<and> kind c = k \<and> name c = rtp_codec r
            \<and> clockRate c = rtp_rate r \<and> numChannels c = Some (or_one (rtp_encoding r))
            \<and> mimeType c = k @ ''/'' @ rtp_codec r"
    by blast
qed

theorem extracted_payload_types_distinct_witness:
  "distinct (map preferredPayloadType
      (codecs (extractCapabilities example_parse (doc_of [audio_section, video_section]))))
   \<and> (\<exists>c\<in>set (codecs (extractCapabilities example_parse (doc_of [audio_section, video_section]))).
         preferredPayloadType c = 111 \<and> kind c = ''video'' \<and> name c = ''H264''
         \<and> clockRate c = 90000 \<and> numChannels c = Some 1 \<and> mimeType c = ''video/H264'')"
proof -
  let ?r = "\<lparr>rtp_payload = 111, rtp_codec = ''H264'', rtp_rate = 90000, rtp_encoding = None\<rparr>"
  have "concat (map (\<lambda>m. map (Pair (m_type m)) (m_rtp m))
           (filter (\<lambda>m. is_av (m_type m)) (media (doc_of [audio_section, video_section]))))
          = [(''audio'', \<lparr>rtp_payload = 111, rtp_codec = ''opus'', rtp_rate = 48000, rtp_encoding = Some 2\<rparr>),
             (''audio'', \<lparr>rtp_payload = 0, rtp_codec = ''PCMU'', rtp_rate = 8000, rtp_encoding = None\<rparr>),
             (''video'', \<lparr>rtp_payload = 96, rtp_codec = ''VP8'', rtp_rate = 90000, rtp_encoding = None\<rparr>)]
            @ (''video'', ?r) # []
         \<and> (\<forall>e\<in>set []. rtp_payload (snd e) \<noteq> rtp_payload ?r)"
    by (simp add: doc_of_def audio_section_def video_section_def empty_section_def is_av_def)
  with extracted_payload_types_distinct [of example_parse "doc_of [audio_section, video_section]"]
  have "distinct (map preferredPayloadType
      (codecs (extractCapabilities example_parse (doc_of [audio_section, video_section]))))
   \<and> (\<exists>c\<in>set (codecs (extractCapabilities example_parse (doc_of [audio_section, video_section]))).
            preferredPayloadType c = rtp_payload ?r \<and> kind c = ''video'' \<and> name c = rtp_codec ?r
            \<and> clockRate c = rtp_rate ?r \<and> numChannels c = Some (or_one (rtp_encoding ?r))
            \<and> mimeType c = ''video'' @ ''/'' @ rtp_codec ?r)"
    by blast
  then show ?thesis by (simp add: or_one_def)
qed

text \<open>
  Claim C10. The codec registry lives across the media sections. Let a document end
  with an audio or video section \<open>m\<close>, and compare with the document without \<open>m\<close>.
  The payload types returned without \<open>m\<close> are a prefix of those returned with it, so a
  payload type that \<open>m\<close> reuses keeps its position; the codec under a payload type
  that \<open>m\<close> declares has the kind of \<open>m\<close>, the name and clock rate of the last
  entry of \<open>m\<close> for it, the feedback lines of \<open>m\<close> only and the parameters of the
  last format-parameters line of \<open>m\<close> for it (none when there is no such line),
  whatever was registered before. A codec registered by an earlier section under a payload type
  that \<open>m\<close> does not declare receives the feedback lines of \<open>m\<close> for that payload
  type, after its own, and the parameters of the last format-parameters line of \<open>m\<close>
  for it, if there is one.
\<close>

theorem registry_shared_across_sections:
  assumes "media after = media before @ [m]" and "is_av (m_type m)"
  shows "(\<exists>new. map preferredPayloadType (codecs (extractCapabilities parse after)) =
                 map preferredPayloadType (codecs (extractCapabilities parse before)) @ new)
       \<and> (\<forall>rs1 r rs2. m_rtp m = rs1 @ r # rs2 \<and> (\<forall>x\<in>set rs2. rtp_payload x \<noteq> rtp_payload r) \<longrightarrow>
             (\<exists>c\<in>set (codecs (extractCapabilities parse after)).
                preferredPayloadType c = rtp_payload r \<and> kind c = m_type m
                \<and> name c = rtp_codec r \<and> clockRate c = rtp_rate r
                \<and> rtcpFeedback c =
                    map feedback_of (filter (\<lambda>fb. fb_payload fb = rtp_payload r)
                      (or_empty (m_rtcpFb m)))
                \<and> ((\<forall>f\<in>set (or_empty (m_fmtp m)). fmtp_payload f \<noteq> rtp_payload r) \<longrightarrow>
                     parameters c = [])
                \<and> (\<forall>fs1 f fs2. or_empty (m_fmtp m) = fs1 @ f # fs2
                       \<and> fmtp_payload f = rtp_payload r
                       \<and> (\<forall>x\<in>set fs2. fmtp_payload x \<noteq> rtp_payload r) \<longrightarrow>
                     parameters c = parse (fmtp_config f))))
       \<and> (\<forall>c0\<in>set (codecs (extractCapabilities parse before)).
             preferredPayloadType c0 \<notin> rtp_payload ` set (m_rtp m) \<longrightarrow>
             ((\<forall>f\<in>set (or_empty (m_fmtp m)). fmtp_payload f \<noteq> preferredPayloadType c0) \<longrightarrow>
                c0\<lparr>rtcpFeedback := rtcpFeedback c0
                     @ map feedback_of (filter (\<lambda>fb. fb_payload fb = preferredPayloadType c0)
                         (or_empty (m_rtcpFb m)))\<rparr>
                  \<in> set (codecs (extractCapabilities parse after)))
             \<and> (\<forall>fs1 f fs2. or_empty (m_fmtp m) = fs1 @ f # fs2
                   \<and> fmtp_payload f = preferredPayloadType c0
                   \<and> (\<forall>x\<in>set fs2. fmtp_payload x \<noteq> preferredPayloadType c0) \<longrightarrow>
                c0\<lparr>parameters := parse (fmtp_config f),
                    rtcpFeedback := rtcpFeedback c0
                     @ map feedback_of (filter (\<lambda>fb. fb_payload fb = preferredPayloadType c0)
                         (or_empty (m_rtcpFb m)))\<rparr>
                  \<in> set (codecs (extractCapabilities parse after))))"
proof -
  have position: "\<exists>new. map preferredPayloadType (codecs (extractCapabilities parse after)) =
                 map preferredPayloadType (codecs (extractCapabilities parse before)) @ new"
    unfolding extracted_payload_types assms(1)
    by (simp only: filter_append map_append concat_append first_occurrences_append)
  have declared: "\<exists>c\<in>set (codecs (extractCapabilities parse after)).
                preferredPayloadType c = rtp_payload r \<and> kind c = m_type m
                \<and> name c = rtp_codec r \<and> clockRate c = rtp_rate r
                \<and> rtcpFeedback c =
                    map feedback_of (filter (\<lambda>fb. fb_payload fb = rtp_payload r)
                      (or_empty (m_rtcpFb m)))
                \<and> ((\<forall>f\<in>set (or_empty (m_fmtp m)). fmtp_payload f \<noteq> rtp_payload r) \<longrightarrow>
                     parameters c = [])
                \<and> (\<forall>fs1 f fs2. or_empty (m_fmtp m) = fs1 @ f # fs2
                       \<and> fmtp_payload f = rtp_payload r
                       \<and> (\<forall>x\<in>set fs2. fmtp_payload x \<noteq> rtp_payload r) \<longrightarrow>
                     parameters c = parse (fmtp_config f))"
    if a: "m_rtp m = rs1 @ r # rs2 \<and> (\<forall>x\<in>set rs2. rtp_payload x \<noteq> rtp_payload r)"
    for rs1 r rs2
  proof -
    from a obtain c
      where c: "map_of (fst (capabilities_loop parse (media after))) (rtp_payload r) = Some c"
        "c\<lparr>parameters := []\<rparr> =
           (codec_of_rtp (m_type m) r)
             \<lparr>rtcpFeedback := map feedback_of
                (filter (\<lambda>fb. fb_payload fb = rtp_payload r) (or_empty (m_rtcpFb m)))\<rparr>"
        "(\<forall>f\<in>set (or_empty (m_fmtp m)). fmtp_payload f \<noteq> rtp_payload r) \<longrightarrow> parameters c = []"
        "\<forall>fs1 f fs2. or_empty (m_fmtp m) = fs1 @ f # fs2 \<and> fmtp_payload f = rtp_payload r
            \<and> (\<forall>x\<in>set fs2. fmtp_payload x \<noteq> rtp_payload r) \<longrightarrow>
            parameters c = parse (fmtp_config f)"
      using registry_declared_in_section [OF assms(2), of rs1 r rs2 parse "media before"]
      unfolding assms(1) by blast
    have f: "preferredPayloadType c = rtp_payload r \<and> kind c = m_type m
                \<and> name c = rtp_codec r \<and> clockRate c = rtp_rate r
                \<and> rtcpFeedback c =
                    map feedback_of (filter (\<lambda>fb. fb_payload fb = rtp_payload r)
                      (or_empty (m_rtcpFb m)))"
      using arg_cong [OF c(2), of preferredPayloadType] arg_cong [OF c(2), of kind]
        arg_cong [OF c(2), of name] arg_cong [OF c(2), of clockRate]
        arg_cong [OF c(2), of rtcpFeedback]
      by (simp add: codec_of_rtp_def)
    with c(1) have "c \<in> set (codecs (extractCapabilities parse after))"
      by (simp add: codecs_registry)
    with f c(3,4) show ?thesis by (intro bexI [of _ c]) simp_all
  qed
  have kept: "c0\<lparr>rtcpFeedback := rtcpFeedback c0
                     @ map feedback_of (filter (\<lambda>fb. fb_payload fb = preferredPayloadType c0)
                         (or_empty (m_rtcpFb m)))\<rparr>
                  \<in> set (codecs (extractCapabilities parse after))"
    if c0: "c0 \<in> set (codecs (extractCapabilities parse before))"
      and fresh: "preferredPayloadType c0 \<notin> rtp_payload ` set (m_rtp m)"
      and nofmtp: "\<forall>f\<in>set (or_empty (m_fmtp m)). fmtp_payload f \<noteq> preferredPayloadType c0"
    for c0
  proof -
    from c0 have "map_of (fst (capabilities_loop parse (media before))) (preferredPayloadType c0) = Some c0"
      by (simp add: codecs_registry)
    from registry_after_section(1) [OF assms(2) fresh this] nofmtp
    show ?thesis by (simp add: codecs_registry assms(1))
  qed
  have attached: "c0\<lparr>parameters := parse (fmtp_config f),
                    rtcpFeedback := rtcpFeedback c0
                     @ map feedback_of (filter (\<lambda>fb. fb_payload fb = preferredPayloadType c0)
                         (or_empty (m_rtcpFb m)))\<rparr>
                  \<in> set (codecs (extractCapabilities parse after))"
    if c0: "c0 \<in> set (codecs (extractCapabilities parse before))"
      and fresh: "preferredPayloadType c0 \<notin> rtp_payload ` set (m_rtp m)"
      and fmtp: "or_empty (m_fmtp m) = fs1 @ f # fs2
                   \<and> fmtp_payload f = preferredPayloadType c0
                   \<and> (\<forall>x\<in>set fs2. fmtp_payload x \<noteq> preferredPayloadType c0)"
    for c0 fs1 f fs2
  proof -
    from c0 have "map_of (fst (capabilities_loop parse (media before))) (preferredPayloadType c0) = Some c0"
      by (simp add: codecs_registry)
    from registry_after_section(2) [OF assms(2) fresh this, of fs1 f fs2] fmtp
    show ?thesis by (simp add: codecs_registry assms(1))
  qed
  from position declared kept attached show ?thesis by blast
qed

theorem registry_shared_across_sections_witness:
  "map preferredPayloadType (codecs (extractCapabilities example_parse (doc_of [audio_section]))) = [111, 0]
   \<and> (\<exists>new. map preferredPayloadType
               (codecs (extractCapabilities example_parse (doc_of [audio_section, video_section])))
             = [111, 0] @ new)
   \<and> (\<exists>c\<in>set (codecs (extractCapabilities example_parse (doc_of [audio_section, video_section]))).
         preferredPayloadType c = 111 \<and> kind c = ''video'' \<and> name c = ''H264'' \<and> clockRate c = 90000
         \<and> rtcpFeedback c = [] \<and> parameters c = [])
   \<and> (\<exists>c\<in>set (codecs (extractCapabilities example_parse (doc_of [audio_section, video_section]))).
         preferredPayloadType c = 96 \<and> kind c = ''video'' \<and> name c = ''VP8''
         \<and> parameters c = [(''config'', JStr ''y=2'')])
   \<and> \<lparr>clockRate = 8000, kind = ''audio'', mimeType = ''audio/PCMU'', name = ''PCMU'',
       numChannels = Some 1, parameters = [(''config'', JStr ''x=1'')], preferredPayloadType = 0,
       rtcpFeedback = [\<lparr>parameter = '''', fbtype = ''nack''\<rparr>]\<rparr>
       \<in> set (codecs (extractCapabilities example_parse (doc_of [audio_section, video_section])))"
proof -
  let ?before = "doc_of [audio_section]" and ?after = "doc_of [audio_section, video_section]"
  let ?pcmu = "\<lparr>clockRate = 8000, kind = ''audio'', mimeType = ''audio/PCMU'', name = ''PCMU'',
       numChannels = Some 1, parameters = [], preferredPayloadType = 0, rtcpFeedback = []\<rparr>"
  let ?h264 = "\<lparr>rtp_payload = 111, rtp_codec = ''H264'', rtp_rate = 90000, rtp_encoding = None\<rparr>"
  let ?vp8 = "\<lparr>rtp_payload = 96, rtp_codec = ''VP8'', rtp_rate = 90000, rtp_encoding = None\<rparr>"
  let ?f0 = "\<lparr>fmtp_payload = 0, fmtp_config = ''x=1''\<rparr>"
  let ?f96 = "\<lparr>fmtp_payload = 96, fmtp_config = ''y=2''\<rparr>"
  have m: "media ?after = media ?before @ [video_section]" "is_av (m_type video_section)"
    by (simp_all add: doc_of_def video_section_def empty_section_def is_av_def)
  note shared = registry_shared_across_sections [OF m, of example_parse]
  have h264: "m_rtp video_section = [?vp8] @ ?h264 # []
       \<and> (\<forall>x\<in>set []. rtp_payload x \<noteq> rtp_payload ?h264)"
    by (simp add: video_section_def empty_section_def)
  have vp8: "m_rtp video_section = [] @ ?vp8 # [?h264]
       \<and> (\<forall>x\<in>set [?h264]. rtp_payload x \<noteq> rtp_payload ?vp8)"
    by (simp add: video_section_def empty_section_def)
  have pcmu: "?pcmu \<in> set (codecs (extractCapabilities example_parse ?before))"
    "preferredPayloadType ?pcmu \<notin> rtp_payload ` set (m_rtp video_section)"
    by (simp_all add: audio_codecs video_section_def empty_section_def)
  have f0: "or_empty (m_fmtp video_section) = [] @ ?f0 # [?f96]
                   \<and> fmtp_payload ?f0 = preferredPayloadType ?pcmu
                   \<and> (\<forall>x\<in>set [?f96]. fmtp_payload x \<noteq> preferredPayloadType ?pcmu)"
    by (simp add: video_section_def empty_section_def or_empty_def)
  have f96: "or_empty (m_fmtp video_section) = [?f0] @ ?f96 # []
                   \<and> fmtp_payload ?f96 = rtp_payload ?vp8
                   \<and> (\<forall>x\<in>set []. fmtp_payload x \<noteq> rtp_payload ?vp8)"
    by (simp add: video_section_def empty_section_def or_empty_def)
  have no111: "\<forall>f\<in>set (or_empty (m_fmtp video_section)). fmtp_payload f \<noteq> rtp_payload ?h264"
    by (simp add: video_section_def empty_section_def or_empty_def)
  from shared have "\<exists>new. map preferredPayloadType (codecs (extractCapabilities example_parse ?after))
             = map preferredPayloadType (codecs (extractCapabilities example_parse ?before)) @ new"
    by blast
  moreover have "\<exists>c\<in>set (codecs (extractCapabilities example_parse ?after)).
                preferredPayloadType c = rtp_payload ?h264 \<and> kind c = m_type video_section
                \<and> name c = rtp_codec ?h264 \<and> clockRate c = rtp_rate ?h264
                \<and> rtcpFeedback c =
                    map feedback_of (filter (\<lambda>fb. fb_payload fb = rtp_payload ?h264)
                      (or_empty (m_rtcpFb video_section)))
                \<and> parameters c = []"
    using shared [THEN conjunct2, THEN conjunct1, rule_format, OF h264] no111 by fast
  moreover have "\<exists>c\<in>set (codecs (extractCapabilities example_parse ?after)).
                preferredPayloadType c = rtp_payload ?vp8 \<and> kind c = m_type video_section
                \<and> name c = rtp_codec ?vp8
                \<and> parameters c = example_parse (fmtp_config ?f96)"
    using shared [THEN conjunct2, THEN conjunct1, rule_format, OF vp8] f96 by fast
  moreover from shared pcmu f0 have "?pcmu\<lparr>parameters := example_parse (fmtp_config ?f0),
                    rtcpFeedback := rtcpFeedback ?pcmu
                     @ map feedback_of (filter (\<lambda>fb. fb_payload fb = preferredPayloadType ?pcmu)
                         (or_empty (m_rtcpFb video_section)))\<rparr>
                  \<in> set (codecs (extractCapabilities example_parse ?after))"
    by blast
  ultimately show ?thesis
    by (simp add: audio_codecs video_section_def empty_section_def or_empty_def feedback_of_def
          example_parse_def)
qed

subsection \<open>Header extensions\<close>

lemma push_unique_eq:
  "push_unique hs h =
     (if (hkind h, uri h) \<in> (\<lambda>s. (hkind s, uri s)) ` set hs then hs else hs @ [h])"
proof (cases "find (\<lambda>saved. hkind h = hkind saved \<and> uri h = uri saved) hs")
  case None
  then have "(hkind h, uri h) \<notin> (\<lambda>s. (hkind s, uri s)) ` set hs"
    by (auto simp: find_None_iff)
  with None show ?thesis by (simp add: push_unique_def)
next
  case (Some d)
  then have "(hkind h, uri h) \<in> (\<lambda>s. (hkind s, uri s)) ` set hs"
    by (auto simp: find_Some_iff image_iff)
  with Some show ?thesis by (simp add: push_unique_def)
qed

lemma keys_push_unique:
  "(\<lambda>s. (hkind s, uri s)) ` set (push_unique hs h) =
     insert (hkind h, uri h) ((\<lambda>s. (hkind s, uri s)) ` set hs)"
  unfolding push_unique_eq [of hs h] by auto

lemma distinct_push_unique:
  "distinct (map (\<lambda>s. (hkind s, uri s)) hs) \<Longrightarrow>
   distinct (map (\<lambda>s. (hkind s, uri s)) (push_unique hs h))"
  unfolding push_unique_eq [of hs h] by auto

lemma keys_foldl_push_unique:
  "(\<lambda>s. (hkind s, uri s)) ` set (foldl push_unique hs xs) =
     (\<lambda>s. (hkind s, uri s)) ` set hs \<union> (\<lambda>s. (hkind s, uri s)) ` set xs"
  by (induction xs rule: rev_induct) (auto simp: keys_push_unique)

lemma distinct_foldl_push_unique:
  "distinct (map (\<lambda>s. (hkind s, uri s)) hs) \<Longrightarrow>
   distinct (map (\<lambda>s. (hkind s, uri s)) (foldl push_unique hs xs))"
  by (induction xs rule: rev_induct) (simp_all add: distinct_push_unique)

lemma first_foldl_push_unique:
  "h \<in> set (foldl push_unique [] xs) \<Longrightarrow>
   \<exists>pre post. xs = pre @ h # post \<and> (\<forall>x\<in>set pre. (hkind x, uri x) \<noteq> (hkind h, uri h))"
proof (induction xs rule: rev_induct)
  case Nil
  then show ?case by simp
next
  case (snoc x xs)
  show ?case
  proof (cases "h \<in> set (foldl push_unique [] xs)")
    case True
    then obtain pre post where "xs = pre @ h # post"
      "\<forall>x\<in>set pre. (hkind x, uri x) \<noteq> (hkind h, uri h)"
      using snoc.IH by blast
    then have "xs @ [x] = pre @ h # (post @ [x])
        \<and> (\<forall>x\<in>set pre. (hkind x, uri x) \<noteq> (hkind h, uri h))" by simp
    then show ?thesis by blast
  next
    case False
    from snoc.prems have "h \<in> set (push_unique (foldl push_unique [] xs) x)" by simp
    with False have new: "h = x"
      "(hkind x, uri x) \<notin> (\<lambda>s. (hkind s, uri s)) ` set (foldl push_unique [] xs)"
      unfolding push_unique_eq [of "foldl push_unique [] xs" x]
      by (auto split: if_splits)
    from new(2) have "\<forall>y\<in>set xs. (hkind y, uri y) \<noteq> (hkind x, uri x)"
      unfolding keys_foldl_push_unique by (auto simp: image_iff)
    with new(1) have "xs @ [x] = xs @ h # [] \<and> (\<forall>y\<in>set xs. (hkind y, uri y) \<noteq> (hkind h, uri h))"
      by simp
    then show ?thesis by blast
  qed
qed

lemma foldl_push_unique_duplicate:
  assumes "(hkind d, uri d) \<in> (\<lambda>s. (hkind s, uri s)) ` set pre"
  shows "foldl push_unique hs (pre @ d # post) = foldl push_unique hs (pre @ post)"
proof -
  from assms have "(hkind d, uri d) \<in> (\<lambda>s. (hkind s, uri s)) ` set (foldl push_unique hs pre)"
    unfolding keys_foldl_push_unique by simp
  then have "push_unique (foldl push_unique hs pre) d = foldl push_unique hs pre"
    unfolding push_unique_eq [of "foldl push_unique hs pre" d] by simp
  then show ?thesis by simp
qed

lemma foldl_push_unique_move:
  assumes "(hkind d, uri d) \<in> (\<lambda>s. (hkind s, uri s)) ` set pre"
  shows "foldl push_unique hs (pre @ d # mid @ post) = foldl push_unique hs (pre @ mid @ d # post)"
proof -
  from assms have "(hkind d, uri d) \<in> (\<lambda>s. (hkind s, uri s)) ` set (pre @ mid)" by auto
  then have "foldl push_unique hs ((pre @ mid) @ d # post) = foldl push_unique hs ((pre @ mid) @ post)"
    by (rule foldl_push_unique_duplicate)
  moreover have "foldl push_unique hs (pre @ d # (mid @ post)) = foldl push_unique hs (pre @ (mid @ post))"
    using assms by (rule foldl_push_unique_duplicate)
  ultimately show ?thesis by simp
qed

lemma snd_capabilities_step:
  "snd (capabilities_step parse st m) =
     foldl push_unique (snd st)
       (if is_av (m_type m) then map (header_of (m_type m)) (or_empty (m_ext m)) else [])"
proof -
  have "foldl (add_ext k) hs es = foldl push_unique hs (map (header_of k) es)" for k hs es
    by (induction es arbitrary: hs) (simp_all add: add_ext_def)
  then show ?thesis by (simp add: capabilities_step_def Let_def)
qed

lemma headerExtensions_stream:
  "headerExtensions (extractCapabilities parse sdpObject) =
     foldl push_unique []
       (concat (map (\<lambda>m. map (header_of (m_type m)) (or_empty (m_ext m)))
          (filter (\<lambda>m. is_av (m_type m)) (media sdpObject))))"
proof -
  have "snd (foldl (capabilities_step parse) st ms) =
          foldl push_unique (snd st)
            (concat (map (\<lambda>m. map (header_of (m_type m)) (or_empty (m_ext m)))
               (filter (\<lambda>m. is_av (m_type m)) ms)))" for st ms
    by (induction ms arbitrary: st) (simp_all add: snd_capabilities_step)
  then show ?thesis by (simp add: extractCapabilities_def Let_def capabilities_loop_def)
qed

lemma ext_results:
  "headerExtensions (extractCapabilities example_parse
      (doc_of [ext_section [(1, ''urn:level''), (5, ''urn:level''), (3, ''urn:toffset'')]])) =
     [\<lparr>hkind = ''audio'', uri = ''urn:level'', preferredId = 1, preferredEncrypt = None\<rparr>,
      \<lparr>hkind = ''audio'', uri = ''urn:toffset'', preferredId = 3, preferredEncrypt = None\<rparr>]"
  by (simp add: capabilities_defs)

text \<open>
  Claim C6, as the code has it. List the header-extension lines of the audio and video
  sections in document order, each with the kind of its section. The returned header
  extensions have pairwise distinct (kind, uri) pairs, the pairs are those of the
  lines, and each returned entry is the first line with its pair. The result does not
  change when a line that follows a line with the same pair is moved to another place
  that still follows such a line.
\<close>

theorem header_extensions_first_declared:
  "distinct (map (\<lambda>h. (hkind h, uri h)) (headerExtensions (extractCapabilities parse sdpObject)))
   \<and> (\<lambda>h. (hkind h, uri h)) ` set (headerExtensions (extractCapabilities parse sdpObject)) =
       (\<lambda>h. (hkind h, uri h)) `
         set (concat (map (\<lambda>m. map (header_of (m_type m)) (or_empty (m_ext m)))
                (filter (\<lambda>m. is_av (m_type m)) (media sdpObject))))
   \<and> (\<forall>h\<in>set (headerExtensions (extractCapabilities parse sdpObject)).
         \<exists>pre post.
           concat (map (\<lambda>m. map (header_of (m_type m)) (or_empty (m_ext m)))
             (filter (\<lambda>m. is_av (m_type m)) (media sdpObject))) = pre @ h # post
           \<and> (\<forall>x\<in>set pre. (hkind x, uri x) \<noteq> (hkind h, uri h)))
   \<and> (\<forall>pre d mid post.
         concat (map (\<lambda>m. map (header_of (m_type m)) (or_empty (m_ext m)))
           (filter (\<lambda>m. is_av (m_type m)) (media sdpObject))) = pre @ d # mid @ post
         \<and> concat (map (\<lambda>m. map (header_of (m_type m)) (or_empty (m_ext m)))
             (filter (\<lambda>m. is_av (m_type m)) (media moved))) = pre @ mid @ d # post
         \<and> (\<exists>x\<in>set pre. (hkind x, uri x) = (hkind d, uri d)) \<longrightarrow>
         headerExtensions (extractCapabilities parse moved) =
           headerExtensions (extractCapabilities parse sdpObject))"
proof (intro conjI ballI allI impI)
  show "distinct (map (\<lambda>h. (hkind h, uri h)) (headerExtensions (extractCapabilities parse sdpObject)))"
    unfolding headerExtensions_stream by (rule distinct_foldl_push_unique) simp
  show "(\<lambda>h. (hkind h, uri h)) ` set (headerExtensions (extractCapabilities parse sdpObject)) =
       (\<lambda>h. (hkind h, uri h)) `
         set (concat (map (\<lambda>m. map (header_of (m_type m)) (or_empty (m_ext m)))
                (filter (\<lambda>m. is_av (m_type m)) (media sdpObject))))"
    unfolding headerExtensions_stream keys_foldl_push_unique by simp
next
  fix h
  assume "h \<in> set (headerExtensions (extractCapabilities parse sdpObject))"
  then show "\<exists>pre post.
           concat (map (\<lambda>m. map (header_of (m_type m)) (or_empty (m_ext m)))
             (filter (\<lambda>m. is_av (m_type m)) (media sdpObject))) = pre @ h # post
           \<and> (\<forall>x\<in>set pre. (hkind x, uri x) \<noteq> (hkind h, uri h))"
    unfolding headerExtensions_stream by (rule first_foldl_push_unique)
next
  fix pre d mid post
  assume a: "concat (map (\<lambda>m. map (header_of (m_type m)) (or_empty (m_ext m)))
           (filter (\<lambda>m. is_av (m_type m)) (media sdpObject))) = pre @ d # mid @ post
         \<and> concat (map (\<lambda>m. map (header_of (m_type m)) (or_empty (m_ext m)))
             (filter (\<lambda>m. is_av (m_type m)) (media moved))) = pre @ mid @ d # post
         \<and> (\<exists>x\<in>set pre. (hkind x, uri x) = (hkind d, uri d))"
  then have "\<exists>x\<in>set pre. (hkind x, uri x) = (hkind d, uri d)" by blast
  then have "(hkind d, uri d) \<in> (\<lambda>s. (hkind s, uri s)) ` set pre"
    by (metis (mono_tags, lifting) image_eqI)
  then have "foldl push_unique [] (pre @ d # mid @ post) = foldl push_unique [] (pre @ mid @ d # post)"
    by (rule foldl_push_unique_move)
  with a show "headerExtensions (extractCapabilities parse moved) =
           headerExtensions (extractCapabilities parse sdpObject)"
    unfolding headerExtensions_stream by simp
qed

theorem header_extensions_first_declared_witness:
  "headerExtensions (extractCapabilities example_parse
      (doc_of [ext_section [(1, ''urn:level''), (3, ''urn:toffset'')], ext_section [(5, ''urn:level'')]])) =
   headerExtensions (extractCapabilities example_parse
      (doc_of [ext_section [(1, ''urn:level''), (5, ''urn:level''), (3, ''urn:toffset'')]]))
   \<and> headerExtensions (extractCapabilities example_parse
      (doc_of [ext_section [(1, ''urn:level''), (5, ''urn:level''), (3, ''urn:toffset'')]])) =
     [\<lparr>hkind = ''audio'', uri = ''urn:level'', preferredId = 1, preferredEncrypt = None\<rparr>,
      \<lparr>hkind = ''audio'', uri = ''urn:toffset'', preferredId = 3, preferredEncrypt = None\<rparr>]"
proof -
  let ?A = "doc_of [ext_section [(1, ''urn:level''), (5, ''urn:level''), (3, ''urn:toffset'')]]"
  let ?B = "doc_of [ext_section [(1, ''urn:level''), (3, ''urn:toffset'')], ext_section [(5, ''urn:level'')]]"
  let ?h1 = "\<lparr>hkind = ''audio'', uri = ''urn:level'', preferredId = 1, preferredEncrypt = None\<rparr>"
  let ?h5 = "\<lparr>hkind = ''audio'', uri = ''urn:level'', preferredId = 5, preferredEncrypt = None\<rparr>"
  let ?h3 = "\<lparr>hkind = ''audio'', uri = ''urn:toffset'', preferredId = 3, preferredEncrypt = None\<rparr>"
  have "concat (map (\<lambda>m. map (header_of (m_type m)) (or_empty (m_ext m)))
           (filter (\<lambda>m. is_av (m_type m)) (media ?A))) = [?h1] @ ?h5 # [?h3] @ []
         \<and> concat (map (\<lambda>m. map (header_of (m_type m)) (or_empty (m_ext m)))
             (filter (\<lambda>m. is_av (m_type m)) (media ?B))) = [?h1] @ [?h3] @ ?h5 # []
         \<and> (\<exists>x\<in>set [?h1]. (hkind x, uri x) = (hkind ?h5, uri ?h5))"
    by (simp add: doc_of_def ext_section_def empty_section_def is_av_def or_empty_def header_of_def)
  with header_extensions_first_declared [of example_parse ?A ?B]
  have "headerExtensions (extractCapabilities example_parse ?B) =
           headerExtensions (extractCapabilities example_parse ?A)"
    by blast
  then show ?thesis by (simp only: ext_results)
qed

text \<open>
  Claim C6 as stated allows any reordering of the lines that share a (kind, uri) pair.
  Two documents with the same two lines for one pair, in the two orders, give two
  results: the identifier is that of the line that comes first.
\<close>

theorem header_extensions_reordered_counterexample:
  "headerExtensions (extractCapabilities example_parse
      (doc_of [ext_section [(1, ''urn:level''), (5, ''urn:level'')]])) =
     [\<lparr>hkind = ''audio'', uri = ''urn:level'', preferredId = 1, preferredEncrypt = None\<rparr>]
   \<and> headerExtensions (extractCapabilities example_parse
      (doc_of [ext_section [(5, ''urn:level''), (1, ''urn:level'')]])) =
     [\<lparr>hkind = ''audio'', uri = ''urn:level'', preferredId = 5, preferredEncrypt = None\<rparr>]"
  by (simp add: capabilities_defs)

section \<open>Properties of the track information\<close>

lemma keys_Map_set_set: "fst ` set (Map_set k v m) = insert k (fst ` set m)"
  by (induction m) auto

lemma add_ssrc_rtx [simp]:
  "rtxSet (add_ssrc k st e) = rtxSet st" "rtxMap (add_ssrc k st e) = rtxMap st"
  by (simp_all add: add_ssrc_def Let_def)

lemma foldl_add_ssrc_rtx [simp]:
  "rtxSet (foldl (add_ssrc k) st es) = rtxSet st" "rtxMap (foldl (add_ssrc k) st es) = rtxMap st"
  by (induction es arbitrary: st) simp_all

lemma add_group_infos [simp]: "infos (add_group N st g) = infos st"
  by (simp add: add_group_def Let_def)

lemma foldl_add_group_infos [simp]: "infos (foldl (add_group N) st gs) = infos st"
  by (induction gs arbitrary: st) simp_all

lemma rtxSet_add_group:
  "rtxSet (add_group N st g) =
     (if semantics g = ''FID'' then insert (at_index (group_numbers N g) 1) (rtxSet st) else rtxSet st)"
  by (simp add: add_group_def Let_def)

lemma rtxSet_foldl_add_group:
  "rtxSet (foldl (add_group N) st gs) =
     rtxSet st \<union> (\<lambda>g. at_index (group_numbers N g) 1) ` {g \<in> set gs. semantics g = ''FID''}"
  by (induction gs arbitrary: st) (auto simp: rtxSet_add_group)

lemma rtxSet_track_step:
  "rtxSet (track_step N st m) =
     rtxSet st \<union> (\<lambda>g. at_index (group_numbers N g) 1) `
       {g \<in> set (if is_av (m_type m) then or_empty (m_ssrcGroups m) else []). semantics g = ''FID''}"
  by (simp add: track_step_def Let_def rtxSet_foldl_add_group)

lemma rtxSet_foldl_track_step:
  "rtxSet (foldl (track_step N) st ms) =
     rtxSet st \<union> (\<lambda>g. at_index (group_numbers N g) 1) `
       {g \<in> set (concat (map (\<lambda>m. or_empty (m_ssrcGroups m)) (filter (\<lambda>m. is_av (m_type m)) ms))).
          semantics g = ''FID''}"
  by (induction ms arbitrary: st) (auto simp: rtxSet_track_step)

lemma rtxSet_track_loop:
  "rtxSet (track_loop N ms) =
     (\<lambda>g. at_index (group_numbers N g) 1) `
       {g \<in> set (concat (map (\<lambda>m. or_empty (m_ssrcGroups m)) (filter (\<lambda>m. is_av (m_type m)) ms))).
          semantics g = ''FID''}"
  by (simp add: track_loop_def rtxSet_foldl_track_step)

text \<open>Every value of \<open>rtxMap\<close> is a member of \<open>rtxSet\<close>.\<close>

lemma rtxMap_add_group:
  "\<forall>e\<in>set (rtxMap st). snd e \<in> rtxSet st \<Longrightarrow>
   \<forall>e\<in>set (rtxMap (add_group N st g)). snd e \<in> rtxSet (add_group N st g)"
  using set_Map_set [of "at_index (group_numbers N g) 0" "at_index (group_numbers N g) 1" "rtxMap st"]
  by (auto simp: add_group_def Let_def)

lemma rtxMap_foldl_add_group:
  "\<forall>e\<in>set (rtxMap st). snd e \<in> rtxSet st \<Longrightarrow>
   \<forall>e\<in>set (rtxMap (foldl (add_group N) st gs)). snd e \<in> rtxSet (foldl (add_group N) st gs)"
proof (induction gs arbitrary: st)
  case Nil
  then show ?case by simp
next
  case (Cons g gs)
  from Cons.prems have "\<forall>e\<in>set (rtxMap (add_group N st g)). snd e \<in> rtxSet (add_group N st g)"
    by (rule rtxMap_add_group)
  then show ?case by (simp add: Cons.IH)
qed

text \<open>
  Every entry of \<open>infos\<close> is stored under its own SSRC, and its \<open>rtxSsrc\<close>, when it
  is a number, is a member of \<open>rtxSet\<close>.
\<close>

lemma set_attribute_fields [simp]:
  "ssrc (set_attribute e i) = ssrc i" "rtxSsrc (set_attribute e i) = rtxSsrc i"
  by (simp_all add: set_attribute_def Let_def)

lemma infos_add_ssrc:
  assumes "\<forall>e\<in>set (rtxMap st). snd e \<in> rtxSet st"
    and "\<forall>e\<in>set (infos st). ssrc (snd e) = fst e \<and> (\<forall>x. rtxSsrc (snd e) = Some x \<longrightarrow> Some x \<in> rtxSet st)"
  shows "\<forall>e\<in>set (infos (add_ssrc k st l)).
           ssrc (snd e) = fst e \<and> (\<forall>x. rtxSsrc (snd e) = Some x \<longrightarrow> Some x \<in> rtxSet st)"
proof (cases "Some (Num (ssrc_id l)) \<in> rtxSet st")
  case True
  with assms(2) show ?thesis by (simp add: add_ssrc_def Let_def)
next
  case False
  let ?s = "ssrc_id l"
  let ?info = "case Map_get (infos st) ?s of Some i \<Rightarrow> i
               | None \<Rightarrow> \<lparr>ti_kind = k,
                    rtxSsrc = (case Map_get (rtxMap st) (Some (Num ?s)) of None \<Rightarrow> None | Some r \<Rightarrow> r),
                    ssrc = ?s, cname = None, streamId = None, trackId = None\<rparr>"
  have good: "ssrc ?info = ?s \<and> (\<forall>x. rtxSsrc ?info = Some x \<longrightarrow> Some x \<in> rtxSet st)"
  proof (cases "Map_get (infos st) ?s")
    case (Some i)
    then have "(?s, i) \<in> set (infos st)" by (simp add: Map_get_def map_of_SomeD)
    with assms(2) Some show ?thesis by force
  next
    case None
    show ?thesis
    proof (cases "Map_get (rtxMap st) (Some (Num ?s))")
      case None
      with \<open>Map_get (infos st) ?s = None\<close> show ?thesis by simp
    next
      case (Some r)
      then have "(Some (Num ?s), r) \<in> set (rtxMap st)" by (simp add: Map_get_def map_of_SomeD)
      with assms(1) have "r \<in> rtxSet st" by force
      with Some \<open>Map_get (infos st) ?s = None\<close> show ?thesis by auto
    qed
  qed
  have "infos (add_ssrc k st l) = Map_set ?s (set_attribute l ?info) (infos st)"
    using False by (simp add: add_ssrc_def Let_def)
  then have "set (infos (add_ssrc k st l)) \<subseteq> insert (?s, set_attribute l ?info) (set (infos st))"
    by (simp add: set_Map_set)
  with good assms(2) show ?thesis by fastforce
qed

lemma infos_foldl_add_ssrc:
  assumes "\<forall>e\<in>set (rtxMap st). snd e \<in> rtxSet st"
    and "\<forall>e\<in>set (infos st). ssrc (snd e) = fst e \<and> (\<forall>x. rtxSsrc (snd e) = Some x \<longrightarrow> Some x \<in> rtxSet st)"
  shows "\<forall>e\<in>set (infos (foldl (add_ssrc k) st ls)).
           ssrc (snd e) = fst e \<and> (\<forall>x. rtxSsrc (snd e) = Some x \<longrightarrow> Some x \<in> rtxSet st)"
  using assms
proof (induction ls arbitrary: st)
  case Nil
  then show ?case by simp
next
  case (Cons l ls)
  have "\<forall>e\<in>set (infos (foldl (add_ssrc k) (add_ssrc k st l) ls)).
           ssrc (snd e) = fst e
           \<and> (\<forall>x. rtxSsrc (snd e) = Some x \<longrightarrow> Some x \<in> rtxSet (add_ssrc k st l))"
    using Cons.prems(1) infos_add_ssrc [OF Cons.prems]
    by (intro Cons.IH) simp_all
  then show ?case by simp
qed

lemma keys_add_ssrc:
  "fst ` set (infos (add_ssrc k st l)) =
     (if Some (Num (ssrc_id l)) \<in> rtxSet st then fst ` set (infos st)
      else insert (ssrc_id l) (fst ` set (infos st)))"
  by (simp add: add_ssrc_def Let_def keys_Map_set_set)

lemma keys_foldl_add_ssrc:
  "fst ` set (infos (foldl (add_ssrc k) st ls)) =
     fst ` set (infos st) \<union> {ssrc_id l | l. l \<in> set ls \<and> Some (Num (ssrc_id l)) \<notin> rtxSet st}"
  by (induction ls arbitrary: st) (auto simp: keys_add_ssrc)

lemma track_loop_snoc: "track_loop N (ms @ [m]) = track_step N (track_loop N ms) m"
  by (simp add: track_loop_def)

lemma track_step_invariant:
  assumes "\<forall>e\<in>set (rtxMap st). snd e \<in> rtxSet st"
    and "\<forall>e\<in>set (infos st). ssrc (snd e) = fst e \<and> (\<forall>x. rtxSsrc (snd e) = Some x \<longrightarrow> Some x \<in> rtxSet st)"
  shows "(\<forall>e\<in>set (rtxMap (track_step N st m)). snd e \<in> rtxSet (track_step N st m))
       \<and> (\<forall>e\<in>set (infos (track_step N st m)).
             ssrc (snd e) = fst e
             \<and> (\<forall>x. rtxSsrc (snd e) = Some x \<longrightarrow> Some x \<in> rtxSet (track_step N st m)))"
proof (cases "is_av (m_type m)")
  case False
  with assms show ?thesis by (simp add: track_step_def)
next
  case True
  let ?st1 = "foldl (add_group N) st (or_empty (m_ssrcGroups m))"
  have step: "track_step N st m = foldl (add_ssrc (m_type m)) ?st1 (or_empty (m_ssrcs m))"
    using True by (simp add: track_step_def Let_def)
  have m1: "\<forall>e\<in>set (rtxMap ?st1). snd e \<in> rtxSet ?st1"
    using assms(1) by (rule rtxMap_foldl_add_group)
  have "rtxSet st \<subseteq> rtxSet ?st1" by (simp add: rtxSet_foldl_add_group)
  with assms(2) have i1: "\<forall>e\<in>set (infos ?st1). ssrc (snd e) = fst e
      \<and> (\<forall>x. rtxSsrc (snd e) = Some x \<longrightarrow> Some x \<in> rtxSet ?st1)"
    by auto
  from infos_foldl_add_ssrc [OF m1 i1, of "m_type m" "or_empty (m_ssrcs m)"] m1
  show ?thesis unfolding step by simp
qed

lemma track_loop_invariant:
  "(\<forall>e\<in>set (rtxMap (track_loop N ms)). snd e \<in> rtxSet (track_loop N ms))
   \<and> (\<forall>e\<in>set (infos (track_loop N ms)).
         ssrc (snd e) = fst e
         \<and> (\<forall>x. rtxSsrc (snd e) = Some x \<longrightarrow> Some x \<in> rtxSet (track_loop N ms)))"
proof (induction ms rule: rev_induct)
  case Nil
  show ?case by (simp add: track_loop_def)
next
  case (snoc m ms)
  then show ?case unfolding track_loop_snoc by (intro track_step_invariant) simp_all
qed

lemma keys_track_step:
  "fst ` set (infos (track_step N st m)) =
     fst ` set (infos st) \<union>
       (if is_av (m_type m)
        then {ssrc_id l | l. l \<in> set (or_empty (m_ssrcs m))
                \<and> Some (Num (ssrc_id l)) \<notin> rtxSet (track_step N st m)}
        else {})"
  by (simp add: track_step_def Let_def keys_foldl_add_ssrc)

lemma track_loop_created:
  "s \<in> fst ` set (infos (track_loop N ms)) \<Longrightarrow>
   \<exists>pre m post. ms = pre @ m # post \<and> is_av (m_type m)
      \<and> s \<in> ssrc_id ` set (or_empty (m_ssrcs m))
      \<and> Some (Num s) \<notin> rtxSet (track_loop N (pre @ [m]))"
proof (induction ms rule: rev_induct)
  case Nil
  then show ?case by (simp add: track_loop_def)
next
  case (snoc m ms)
  show ?case
  proof (cases "s \<in> fst ` set (infos (track_loop N ms))")
    case True
    then obtain pre m' post where "ms = pre @ m' # post" "is_av (m_type m')"
      "s \<in> ssrc_id ` set (or_empty (m_ssrcs m'))"
      "Some (Num s) \<notin> rtxSet (track_loop N (pre @ [m']))"
      using snoc.IH by blast
    then have "ms @ [m] = pre @ m' # (post @ [m]) \<and> is_av (m_type m')
      \<and> s \<in> ssrc_id ` set (or_empty (m_ssrcs m'))
      \<and> Some (Num s) \<notin> rtxSet (track_loop N (pre @ [m']))"
      by simp
    then show ?thesis by blast
  next
    case False
    with snoc.prems have "is_av (m_type m)
      \<and> s \<in> ssrc_id ` set (or_empty (m_ssrcs m))
      \<and> Some (Num s) \<notin> rtxSet (track_loop N (ms @ [m]))"
      unfolding track_loop_snoc keys_track_step [of N "track_loop N ms" m]
      by (auto split: if_splits)
    then have "ms @ [m] = ms @ m # [] \<and> is_av (m_type m)
      \<and> s \<in> ssrc_id ` set (or_empty (m_ssrcs m))
      \<and> Some (Num s) \<notin> rtxSet (track_loop N (ms @ [m]))"
      by simp
    then show ?thesis by blast
  qed
qed

lemma decimal_examples:
  "decimal_Number ''111'' = Num 111" "decimal_Number ''222'' = Num 222"
  by (simp_all add: decimal_Number_def)

lemma split_examples:
  "split CHR '' '' ''111 222'' = [''111'', ''222'']"
  "split CHR '' '' ''stream1 track1'' = [''stream1'', ''track1'']"
  by simp_all

lemmas track_defs =
  extractTrackInfos_def track_loop_def track_step_def add_group_def add_ssrc_def set_attribute_def
  group_numbers_def at_index_def Map_get_def is_av_def or_empty_def Let_def
  ssrc_section_def empty_section_def doc_of_def decimal_examples split_examples

lemma track_doc_infos:
  "extractTrackInfos decimal_Number track_doc =
   [(333, \<lparr>ti_kind = ''audio'', rtxSsrc = None, ssrc = 333, cname = Some ''a'',
           streamId = None, trackId = None\<rparr>),
    (111, \<lparr>ti_kind = ''video'', rtxSsrc = Some (Num 222), ssrc = 111, cname = None,
           streamId = Some ''stream1'', trackId = Some ''track1''\<rparr>)]"
  by (simp add: track_defs track_doc_def)

text \<open>
  Only the audio and video sections are read: an FID group of any other section fills
  neither \<open>rtxMap\<close> nor \<open>rtxSet\<close>, so the SSRC it names second is handled as any
  other SSRC.
\<close>

lemma application_group_ignored:
  "extractTrackInfos decimal_Number application_group_doc =
   [(222, \<lparr>ti_kind = ''video'', rtxSsrc = None, ssrc = 222, cname = Some ''v'',
           streamId = None, trackId = None\<rparr>),
    (111, \<lparr>ti_kind = ''video'', rtxSsrc = None, ssrc = 111, cname = None,
           streamId = Some ''stream1'', trackId = Some ''track1''\<rparr>)]"
  by (simp add: track_defs application_group_doc_def)

text \<open>
  In a document with at most one audio or video section, every attribute line stands in
  the section of every FID group that is read.
\<close>

lemma single_section_condition:
  assumes "length (filter (\<lambda>m. is_av (m_type m)) (media sdpObject)) \<le> 1"
  shows "\<forall>pre m post. media sdpObject = pre @ m # post \<and> is_av (m_type m) \<longrightarrow>
             (\<forall>l\<in>set (or_empty (m_ssrcs m)).
                \<forall>g\<in>set (concat (map (\<lambda>m. or_empty (m_ssrcGroups m))
                           (filter (\<lambda>m. is_av (m_type m)) (media sdpObject)))).
                  semantics g = ''FID''
                  \<and> at_index (group_numbers toNumber g) 1 = Some (Num (ssrc_id l)) \<longrightarrow>
                  (\<exists>g'\<in>set (concat (map (\<lambda>m. or_empty (m_ssrcGroups m))
                              (filter (\<lambda>m. is_av (m_type m)) (pre @ [m])))).
                     semantics g' = ''FID''
                     \<and> at_index (group_numbers toNumber g') 1 = Some (Num (ssrc_id l))))"
proof (intro allI impI)
  fix pre m post
  assume dec: "media sdpObject = pre @ m # post \<and> is_av (m_type m)"
  with assms have "filter (\<lambda>m. is_av (m_type m)) post = []" by simp
  with dec have "filter (\<lambda>m. is_av (m_type m)) (media sdpObject)
               = filter (\<lambda>m. is_av (m_type m)) (pre @ [m])"
    by simp
  then show "\<forall>l\<in>set (or_empty (m_ssrcs m)).
                \<forall>g\<in>set (concat (map (\<lambda>m. or_empty (m_ssrcGroups m))
                           (filter (\<lambda>m. is_av (m_type m)) (media sdpObject)))).
                  semantics g = ''FID''
                  \<and> at_index (group_numbers toNumber g) 1 = Some (Num (ssrc_id l)) \<longrightarrow>
                  (\<exists>g'\<in>set (concat (map (\<lambda>m. or_empty (m_ssrcGroups m))
                              (filter (\<lambda>m. is_av (m_type m)) (pre @ [m])))).
                     semantics g' = ''FID''
                     \<and> at_index (group_numbers toNumber g') 1 = Some (Num (ssrc_id l)))"
    by (simp only:) blast
qed

text \<open>
  Claim C7, as the code has it. The FID groups and the per-source attribute lines meant
  are those of the audio and video sections, the only sections that are read. Take a
  document in which every per-source attribute line of an SSRC that some FID group names
  second stands in the media section of such a group or in a later one; every document
  with a single audio or video section is one. Then no entry of the track-info mapping
  has an \<open>ssrc\<close> equal to an \<open>rtxSsrc\<close> of the mapping, and no SSRC that an FID group
  names second is a key or an \<open>ssrc\<close> of the mapping, in whatever order the groups and
  the attribute lines of a section are declared.
\<close>

theorem rtx_ssrcs_excluded:
  assumes "\<forall>pre m post. media sdpObject = pre @ m # post \<and> is_av (m_type m) \<longrightarrow>
             (\<forall>l\<in>set (or_empty (m_ssrcs m)).
                \<forall>g\<in>set (concat (map (\<lambda>m. or_empty (m_ssrcGroups m))
                           (filter (\<lambda>m. is_av (m_type m)) (media sdpObject)))).
                  semantics g = ''FID''
                  \<and> at_index (group_numbers toNumber g) 1 = Some (Num (ssrc_id l)) \<longrightarrow>
                  (\<exists>g'\<in>set (concat (map (\<lambda>m. or_empty (m_ssrcGroups m))
                              (filter (\<lambda>m. is_av (m_type m)) (pre @ [m])))).
                     semantics g' = ''FID''
                     \<and> at_index (group_numbers toNumber g') 1 = Some (Num (ssrc_id l))))"
  shows "(\<forall>a\<in>set (extractTrackInfos toNumber sdpObject).
            \<forall>b\<in>set (extractTrackInfos toNumber sdpObject).
              rtxSsrc (snd b) \<noteq> Some (Num (ssrc (snd a))))
       \<and> (\<forall>g\<in>set (concat (map (\<lambda>m. or_empty (m_ssrcGroups m))
                    (filter (\<lambda>m. is_av (m_type m)) (media sdpObject)))).
            semantics g = ''FID'' \<longrightarrow>
            (\<forall>a\<in>set (extractTrackInfos toNumber sdpObject).
               at_index (group_numbers toNumber g) 1 \<noteq> Some (Num (fst a))
               \<and> at_index (group_numbers toNumber g) 1 \<noteq> Some (Num (ssrc (snd a)))))"
proof -
  let ?st = "track_loop toNumber (media sdpObject)"
  have key: "Some (Num s) \<notin> rtxSet ?st" if "s \<in> fst ` set (infos ?st)" for s
  proof
    assume in_set: "Some (Num s) \<in> rtxSet ?st"
    from track_loop_created [OF that] obtain pre m post
      where dec: "media sdpObject = pre @ m # post" "is_av (m_type m)"
        and line: "s \<in> ssrc_id ` set (or_empty (m_ssrcs m))"
        and fresh: "Some (Num s) \<notin> rtxSet (track_loop toNumber (pre @ [m]))"
      by blast
    from line obtain l where l: "l \<in> set (or_empty (m_ssrcs m))" "ssrc_id l = s" by auto
    from in_set [unfolded rtxSet_track_loop] obtain g
      where "Some (Num s) = at_index (group_numbers toNumber g) 1"
        and "g \<in> {g \<in> set (concat (map (\<lambda>m. or_empty (m_ssrcGroups m))
                   (filter (\<lambda>m. is_av (m_type m)) (media sdpObject)))). semantics g = ''FID''}"
      by (rule imageE)
    then have g: "g \<in> set (concat (map (\<lambda>m. or_empty (m_ssrcGroups m))
                   (filter (\<lambda>m. is_av (m_type m)) (media sdpObject))))"
        "semantics g = ''FID''" "at_index (group_numbers toNumber g) 1 = Some (Num s)"
      by simp_all
    with assms dec l obtain g'
      where "g' \<in> set (concat (map (\<lambda>m. or_empty (m_ssrcGroups m))
                   (filter (\<lambda>m. is_av (m_type m)) (pre @ [m]))))"
        "semantics g' = ''FID''" "at_index (group_numbers toNumber g') 1 = Some (Num s)"
      by blast
    then have "Some (Num s) \<in> rtxSet (track_loop toNumber (pre @ [m]))"
      unfolding rtxSet_track_loop by force
    with fresh show False by contradiction
  qed
  have inv: "\<forall>e\<in>set (infos ?st). ssrc (snd e) = fst e
         \<and> (\<forall>x. rtxSsrc (snd e) = Some x \<longrightarrow> Some x \<in> rtxSet ?st)"
    using track_loop_invariant [of toNumber "media sdpObject"] by blast
  have one: "rtxSsrc (snd b) \<noteq> Some (Num (ssrc (snd a)))"
    if "a \<in> set (infos ?st)" "b \<in> set (infos ?st)" for a b
  proof
    assume eq: "rtxSsrc (snd b) = Some (Num (ssrc (snd a)))"
    with inv that(2) have "Some (Num (ssrc (snd a))) \<in> rtxSet ?st" by blast
    moreover from inv that(1) have "ssrc (snd a) \<in> fst ` set (infos ?st)" by force
    ultimately show False using key by blast
  qed
  have two: "at_index (group_numbers toNumber g) 1 \<noteq> Some (Num (fst a))
               \<and> at_index (group_numbers toNumber g) 1 \<noteq> Some (Num (ssrc (snd a)))"
    if "g \<in> set (concat (map (\<lambda>m. or_empty (m_ssrcGroups m))
                    (filter (\<lambda>m. is_av (m_type m)) (media sdpObject))))"
      "semantics g = ''FID''" "a \<in> set (infos ?st)" for g a
  proof -
    from that(1,2) have "at_index (group_numbers toNumber g) 1 \<in> rtxSet ?st"
      unfolding rtxSet_track_loop by blast
    moreover from that(3) have "fst a \<in> fst ` set (infos ?st)" by simp
    moreover from inv that(3) have "ssrc (snd a) = fst a" by blast
    ultimately show ?thesis using key by metis
  qed
  from one two show ?thesis unfolding extractTrackInfos_def by blast
qed

theorem rtx_ssrcs_excluded_witness:
  "extractTrackInfos decimal_Number track_doc =
   [(333, \<lparr>ti_kind = ''audio'', rtxSsrc = None, ssrc = 333, cname = Some ''a'',
           streamId = None, trackId = None\<rparr>),
    (111, \<lparr>ti_kind = ''video'', rtxSsrc = Some (Num 222), ssrc = 111, cname = None,
           streamId = Some ''stream1'', trackId = Some ''track1''\<rparr>)]
   \<and> 222 \<notin> fst ` set (extractTrackInfos decimal_Number track_doc)"
proof -
  let ?g = "\<lparr>semantics = ''FID'', group_ssrcs = ''111 222''\<rparr>"
  have "\<forall>pre m post. media track_doc = pre @ m # post \<and> is_av (m_type m) \<longrightarrow>
             (\<forall>l\<in>set (or_empty (m_ssrcs m)).
                \<forall>g\<in>set (concat (map (\<lambda>m. or_empty (m_ssrcGroups m))
                           (filter (\<lambda>m. is_av (m_type m)) (media track_doc)))).
                  semantics g = ''FID''
                  \<and> at_index (group_numbers decimal_Number g) 1 = Some (Num (ssrc_id l)) \<longrightarrow>
                  (\<exists>g'\<in>set (concat (map (\<lambda>m. or_empty (m_ssrcGroups m))
                              (filter (\<lambda>m. is_av (m_type m)) (pre @ [m])))).
                     semantics g' = ''FID''
                     \<and> at_index (group_numbers decimal_Number g') 1 = Some (Num (ssrc_id l))))"
    by (auto simp: track_doc_def doc_of_def ssrc_section_def empty_section_def is_av_def
          or_empty_def group_numbers_def at_index_def decimal_examples Cons_eq_append_conv)
  note excluded = rtx_ssrcs_excluded [OF this]
  have "?g \<in> set (concat (map (\<lambda>m. or_empty (m_ssrcGroups m))
                    (filter (\<lambda>m. is_av (m_type m)) (media track_doc))))"
    and "semantics ?g = ''FID''"
    and "at_index (group_numbers decimal_Number ?g) 1 = Some (Num 222)"
    by (simp_all add: track_doc_def doc_of_def ssrc_section_def empty_section_def is_av_def
          or_empty_def group_numbers_def at_index_def decimal_examples split_examples)
  with excluded have "\<forall>a\<in>set (extractTrackInfos decimal_Number track_doc). Some (Num 222) \<noteq> Some (Num (fst a))"
    by metis
  then have "222 \<notin> fst ` set (extractTrackInfos decimal_Number track_doc)" by auto
  with track_doc_infos show ?thesis by (simp only: simp_thms)
qed

text \<open>
  Claim C7 as stated covers every document. \<open>rtxSet\<close> is filled section by section:
  when the attribute line of SSRC 222 stands in the first section and the FID group
  \<open>111 222\<close> in the second, the line is read before the group, 222 gets an entry of
  its own, and the entry for 111 has \<open>rtxSsrc\<close> 222.
\<close>

theorem late_group_counterexample:
  "extractTrackInfos decimal_Number late_group_doc =
   [(222, \<lparr>ti_kind = ''audio'', rtxSsrc = None, ssrc = 222, cname = Some ''a'',
           streamId = None, trackId = None\<rparr>),
    (111, \<lparr>ti_kind = ''video'', rtxSsrc = Some (Num 222), ssrc = 111, cname = None,
           streamId = Some ''stream1'', trackId = Some ''track1''\<rparr>)]"
  by (simp add: track_defs late_group_doc_def)

end
